theory Spec2Isabelle
  imports Main
begin

section \<open>The data model (types.ts)\<close>

text \<open>
  \<^verbatim>\<open>payload: any\<close> and \<^verbatim>\<open>result?: any\<close> are the values that survive
  \<^verbatim>\<open>JSON.stringify\<close>/\<^verbatim>\<open>JSON.parse\<close>, which both adapters apply to them, or
  \<^verbatim>\<open>undefined\<close>, for which \<^verbatim>\<open>JSON.stringify\<close> writes nothing: \<open>None\<close> of
  \<open>json option\<close>. A wrapper object around a primitive is written as the primitive,
  as \<^verbatim>\<open>JSON.stringify\<close> writes it.
\<close>

datatype json =
  JNull
| JBool bool
| JNumber int
| JString string
| JArray "json list"
| JObject "(string \<times> json) list"

text \<open>JavaScript's truthiness of a value, as \<^verbatim>\<open>result ? ... : null\<close> tests it.\<close>

fun truthy :: "json \<Rightarrow> bool" where
  "truthy JNull = False"
| "truthy (JBool b) = b"
| "truthy (JNumber n) = (n \<noteq> 0)"
| "truthy (JString s) = (s \<noteq> [])"
| "truthy (JArray xs) = True"
| "truthy (JObject kvs) = True"

datatype JobStatus = Pending | Running | Done | Failed

text \<open>
  The interface \<^verbatim>\<open>Job\<close>. The field \<^verbatim>\<open>id\<close> is \<open>jobId\<close> here. \<open>attempts\<close> starts
  at 0 and is only ever incremented; \<open>maxAttempts\<close> is the caller's number.
\<close>

record Job =
  jobId :: string
  name :: string
  status :: JobStatus
  payload :: "json option"
  attempts :: nat
  maxAttempts :: int
  error :: "string option"
  result :: "json option"
  createdAt :: nat
  updatedAt :: nat

text \<open>
  What a rejected promise carries. \<open>Error\<close> is \<^verbatim>\<open>new Error(message)\<close>, \<open>TypeError\<close>
  the engine's own, \<open>SystemError\<close> a rejection of the \<^verbatim>\<open>fs\<close> module with its
  \<^verbatim>\<open>code\<close>, \<open>DatabaseError\<close> a rejection of the database driver. The message
  text of the last two is the platform's; the model keeps the code.
\<close>

datatype js_error =
  Error string
| TypeError string
| SystemError string
| DatabaseError string

fun message :: "js_error \<Rightarrow> string" where
  "message (Error m) = m"
| "message (TypeError m) = m"
| "message (SystemError c) = c"
| "message (DatabaseError c) = c"

text \<open>
  The interface \<^verbatim>\<open>StorageAdapter\<close>, as runner.ts calls it. Every operation is
  asynchronous and may reject (\<open>Inl\<close>). The store is passed in and returned; the
  first argument of an operation that stamps \<^verbatim>\<open>Date.now()\<close> is that time, and the
  first argument of \<open>create\<close> is what \<^verbatim>\<open>generateId()\<close> returns.
\<close>

record 's StorageAdapter =
  create :: "string \<Rightarrow> nat \<Rightarrow> string \<Rightarrow> json option \<Rightarrow> int \<Rightarrow> 's \<Rightarrow> js_error + (Job \<times> 's)"
  markRunning :: "nat \<Rightarrow> string \<Rightarrow> 's \<Rightarrow> js_error + 's"
  markDone :: "nat \<Rightarrow> string \<Rightarrow> json option \<Rightarrow> 's \<Rightarrow> js_error + 's"
  markFailed :: "nat \<Rightarrow> string \<Rightarrow> string \<Rightarrow> 's \<Rightarrow> js_error + 's"
  incAttempts :: "nat \<Rightarrow> string \<Rightarrow> 's \<Rightarrow> js_error + 's"
  findJobsByStatus :: "JobStatus option \<Rightarrow> 's \<Rightarrow> js_error + Job list"
  resetJobStatus :: "nat \<Rightarrow> string \<Rightarrow> JobStatus \<Rightarrow> 's \<Rightarrow> js_error + 's"
  getJob :: "string \<Rightarrow> 's \<Rightarrow> js_error + Job option"

section \<open>The filesystem adapter (createFSAdapter)\<close>

text \<open>
  The adapter keeps one file \<^verbatim>\<open><id>.json\<close> per job in the directory \<^verbatim>\<open>jobs\<close>.
  \<open>files\<close> lists the jobs those files hold, in the order \<^verbatim>\<open>readdir\<close> reports
  them; the file of a job is found by the job's id, as \<^verbatim>\<open>getJobPath\<close> names it.
  The adapter takes its \<^verbatim>\<open>fs\<close> implementation as an option, and each of its calls
  may reject: \<open>fault\<close> gives the error code a call is rejected with, if any
  (\<open>\<lambda>_. None\<close> is a healthy disk).
\<close>

datatype FsCall = Mkdir | Readdir | ReadFile string | WriteFile string

record Disk =
  files :: "Job list"
  fault :: "FsCall \<Rightarrow> string option"

text \<open>
  \<^verbatim>\<open>mkdir(jobsDir, { recursive: true })\<close>; an error is rethrown unless its code is
  \<^verbatim>\<open>EEXIST\<close>.
\<close>

definition ensureJobsDir :: "Disk \<Rightarrow> js_error + unit" where
  "ensureJobsDir d =
     (case fault d Mkdir of
        None \<Rightarrow> Inr ()
      | Some code \<Rightarrow> (if code \<noteq> ''EEXIST'' then Inl (SystemError code) else Inr ()))"

text \<open>
  \<^verbatim>\<open>writeFile\<close> of a job's file: the file is replaced, or added to the directory.
  Where \<^verbatim>\<open>readdir\<close> lists a new file is the platform's matter; the model lists it
  last, and no property below depends on the place.
\<close>

fun writeFile :: "Job \<Rightarrow> Job list \<Rightarrow> Job list" where
  "writeFile job [] = [job]"
| "writeFile job (j # js) =
     (if jobId j = jobId job then job # js else j # writeFile job js)"

definition saveJob :: "Job \<Rightarrow> Disk \<Rightarrow> js_error + Disk" where
  "saveJob job d =
     (case ensureJobsDir d of
        Inl e \<Rightarrow> Inl e
      | Inr _ \<Rightarrow>
          (case fault d (WriteFile (jobId job)) of
             Some code \<Rightarrow> Inl (SystemError code)
           | None \<Rightarrow> Inr (d\<lparr>files := writeFile job (files d)\<rparr>)))"

text \<open>
  \<^verbatim>\<open>loadJob\<close>: \<^verbatim>\<open>null\<close> when \<^verbatim>\<open>readFile\<close> is rejected with \<^verbatim>\<open>ENOENT\<close> (also
  when there is no such file), any other error is rethrown.
\<close>

definition loadJob :: "string \<Rightarrow> Disk \<Rightarrow> js_error + Job option" where
  "loadJob i d =
     (case fault d (ReadFile i) of
        Some code \<Rightarrow> (if code = ''ENOENT'' then Inr None else Inl (SystemError code))
      | None \<Rightarrow> Inr (find (\<lambda>j. jobId j = i) (files d)))"

text \<open>\<^verbatim>\<open>Promise.all(jobFiles.map(... loadJob(id)))\<close>.\<close>

fun loadAll :: "string list \<Rightarrow> Disk \<Rightarrow> js_error + Job option list" where
  "loadAll [] d = Inr []"
| "loadAll (i # is) d =
     (case loadJob i d of
        Inl e \<Rightarrow> Inl e
      | Inr j \<Rightarrow> (case loadAll is d of Inl e \<Rightarrow> Inl e | Inr js \<Rightarrow> Inr (j # js)))"

definition nonNull :: "Job option list \<Rightarrow> Job list" where
  "nonNull js = map the (filter (\<lambda>j. j \<noteq> None) js)"

definition fs_findJobsByStatus :: "JobStatus option \<Rightarrow> Disk \<Rightarrow> js_error + Job list" where
  "fs_findJobsByStatus st d =
     (case ensureJobsDir d of
        Inl e \<Rightarrow> Inl e
      | Inr _ \<Rightarrow>
          (case (case fault d Readdir of
                   Some code \<Rightarrow> Inl (SystemError code)
                 | None \<Rightarrow> loadAll (map jobId (files d)) d) of
             Inl e \<Rightarrow> (if e = SystemError ''ENOENT'' then Inr [] else Inl e)
           | Inr jobs \<Rightarrow>
               (case st of
                  Some s \<Rightarrow> Inr (filter (\<lambda>job. status job = s) (nonNull jobs))
                | None \<Rightarrow> Inr (nonNull jobs))))"

definition fs_create :: "string \<Rightarrow> nat \<Rightarrow> string \<Rightarrow> json option \<Rightarrow> int \<Rightarrow> Disk \<Rightarrow> js_error + (Job \<times> Disk)" where
  "fs_create newId now nm pl maxAtt d =
     (let job = \<lparr>jobId = newId, name = nm, status = Pending, payload = pl, attempts = 0,
                 maxAttempts = maxAtt, error = None, result = None,
                 createdAt = now, updatedAt = now\<rparr>
      in case saveJob job d of Inl e \<Rightarrow> Inl e | Inr d' \<Rightarrow> Inr (job, d'))"

text \<open>
  The five updates share one shape: load the job, throw \<^verbatim>\<open>Job not found: <id>\<close>
  when there is none, change the loaded object and save it.
\<close>

definition fs_update :: "(Job \<Rightarrow> Job) \<Rightarrow> string \<Rightarrow> Disk \<Rightarrow> js_error + Disk" where
  "fs_update f i d =
     (case loadJob i d of
        Inl e \<Rightarrow> Inl e
      | Inr None \<Rightarrow> Inl (Error (''Job not found: '' @ i))
      | Inr (Some job) \<Rightarrow> saveJob (f job) d)"

definition fs_markRunning :: "nat \<Rightarrow> string \<Rightarrow> Disk \<Rightarrow> js_error + Disk" where
  "fs_markRunning now = fs_update (\<lambda>job. job\<lparr>status := Running, updatedAt := now\<rparr>)"

definition fs_markDone :: "nat \<Rightarrow> string \<Rightarrow> json option \<Rightarrow> Disk \<Rightarrow> js_error + Disk" where
  "fs_markDone now i res =
     fs_update (\<lambda>job. job\<lparr>status := Done, result := res, updatedAt := now\<rparr>) i"

definition fs_markFailed :: "nat \<Rightarrow> string \<Rightarrow> string \<Rightarrow> Disk \<Rightarrow> js_error + Disk" where
  "fs_markFailed now i err =
     fs_update (\<lambda>job. job\<lparr>status := Failed, error := Some err, updatedAt := now\<rparr>) i"

definition fs_incAttempts :: "nat \<Rightarrow> string \<Rightarrow> Disk \<Rightarrow> js_error + Disk" where
  "fs_incAttempts now = fs_update (\<lambda>job. job\<lparr>attempts := attempts job + 1, updatedAt := now\<rparr>)"

definition fs_resetJobStatus :: "nat \<Rightarrow> string \<Rightarrow> JobStatus \<Rightarrow> Disk \<Rightarrow> js_error + Disk" where
  "fs_resetJobStatus now i s = fs_update (\<lambda>job. job\<lparr>status := s, updatedAt := now\<rparr>) i"

definition createFSAdapter :: "Disk StorageAdapter" where
  "createFSAdapter =
     \<lparr>create = fs_create, markRunning = fs_markRunning, markDone = fs_markDone,
      markFailed = fs_markFailed, incAttempts = fs_incAttempts,
      findJobsByStatus = fs_findJobsByStatus, resetJobStatus = fs_resetJobStatus,
      getJob = loadJob\<rparr>"

section \<open>The Kysely adapter (createKyselyAdapter)\<close>

text \<open>
  A row of the table \<^verbatim>\<open>jobs\<close> (\<^verbatim>\<open>JobsTable\<close>; the column \<^verbatim>\<open>x\<close> is \<open>col_x\<close>).
  The JSON text of \<^verbatim>\<open>payload\<close> and \<^verbatim>\<open>result\<close> is kept as the value it encodes,
  and the status text as the status it spells. \<^verbatim>\<open>createMigration\<close> declares
  \<^verbatim>\<open>id\<close> the primary key and \<^verbatim>\<open>payload\<close> not null.
\<close>

record JobsTable =
  col_id :: string
  col_name :: string
  col_status :: JobStatus
  col_payload :: json
  col_attempts :: nat
  col_max_attempts :: int
  col_result :: "json option"
  col_error :: "string option"
  col_created_at :: nat
  col_updated_at :: nat

definition rowToJob :: "JobsTable \<Rightarrow> Job" where
  "rowToJob row =
     \<lparr>jobId = col_id row, name = col_name row, status = col_status row,
      payload = Some (col_payload row), attempts = col_attempts row,
      maxAttempts = col_max_attempts row,
      error = (case col_error row of
                 None \<Rightarrow> None
               | Some e \<Rightarrow> (if e = [] then None else Some e)),
      result = col_result row,
      createdAt = col_created_at row, updatedAt = col_updated_at row\<rparr>"

text \<open>
  The insert is rejected when \<^verbatim>\<open>JSON.stringify(payload)\<close> is \<^verbatim>\<open>undefined\<close> (the
  column \<^verbatim>\<open>payload\<close> is declared not null) and when a row has the id already.
\<close>

definition kysely_create :: "string \<Rightarrow> nat \<Rightarrow> string \<Rightarrow> json option \<Rightarrow> int \<Rightarrow> JobsTable list \<Rightarrow> js_error + (Job \<times> JobsTable list)" where
  "kysely_create newId now nm pl maxAtt db =
     (case pl of
        None \<Rightarrow> Inl (DatabaseError ''jobs.payload'')
      | Some v \<Rightarrow>
          (let row = \<lparr>col_id = newId, col_name = nm, col_status = Pending,
                      col_payload = v, col_attempts = 0, col_max_attempts = maxAtt,
                      col_result = None, col_error = None, col_created_at = now,
                      col_updated_at = now\<rparr>
           in if newId \<in> set (map col_id db) then Inl (DatabaseError ''jobs.id'')
              else Inr (rowToJob row, db @ [row])))"

text \<open>\<^verbatim>\<open>updateTable('jobs').set(...).where('id', '=', id).execute()\<close>.\<close>

definition kysely_update :: "(JobsTable \<Rightarrow> JobsTable) \<Rightarrow> string \<Rightarrow> JobsTable list \<Rightarrow> js_error + JobsTable list" where
  "kysely_update f i db = Inr (map (\<lambda>row. if col_id row = i then f row else row) db)"

definition kysely_markRunning :: "nat \<Rightarrow> string \<Rightarrow> JobsTable list \<Rightarrow> js_error + JobsTable list" where
  "kysely_markRunning now =
     kysely_update (\<lambda>row. row\<lparr>col_status := Running, col_updated_at := now\<rparr>)"

definition kysely_markDone :: "nat \<Rightarrow> string \<Rightarrow> json option \<Rightarrow> JobsTable list \<Rightarrow> js_error + JobsTable list" where
  "kysely_markDone now i res =
     kysely_update
       (\<lambda>row. row\<lparr>col_status := Done,
                   col_result := (case res of
                                    None \<Rightarrow> None
                                  | Some v \<Rightarrow> (if truthy v then Some v else None)),
                   col_updated_at := now\<rparr>) i"

definition kysely_markFailed :: "nat \<Rightarrow> string \<Rightarrow> string \<Rightarrow> JobsTable list \<Rightarrow> js_error + JobsTable list" where
  "kysely_markFailed now i err =
     kysely_update
       (\<lambda>row. row\<lparr>col_status := Failed, col_error := Some err, col_updated_at := now\<rparr>) i"

definition kysely_incAttempts :: "nat \<Rightarrow> string \<Rightarrow> JobsTable list \<Rightarrow> js_error + JobsTable list" where
  "kysely_incAttempts now =
     kysely_update (\<lambda>row. row\<lparr>col_attempts := col_attempts row + 1, col_updated_at := now\<rparr>)"

definition kysely_getJob :: "string \<Rightarrow> JobsTable list \<Rightarrow> js_error + Job option" where
  "kysely_getJob i db = Inr (map_option rowToJob (find (\<lambda>row. col_id row = i) db))"

text \<open>
  The object \<^verbatim>\<open>createKyselyAdapter\<close> returns has no property
  \<^verbatim>\<open>findJobsByStatus\<close> and none \<^verbatim>\<open>resetJobStatus\<close>: calling either throws a
  TypeError.
\<close>

definition createKyselyAdapter :: "JobsTable list StorageAdapter" where
  "createKyselyAdapter =
     \<lparr>create = kysely_create, markRunning = kysely_markRunning,
      markDone = kysely_markDone, markFailed = kysely_markFailed,
      incAttempts = kysely_incAttempts,
      findJobsByStatus = (\<lambda>s db. Inl (TypeError ''storage.findJobsByStatus is not a function'')),
      resetJobStatus = (\<lambda>now i s db. Inl (TypeError ''storage.resetJobStatus is not a function'')),
      getJob = kysely_getJob\<rparr>"

section \<open>The runner (createRunner)\<close>

text \<open>
  A handler is awaited on the payload: it resolves with a value or \<^verbatim>\<open>undefined\<close>
  (\<open>Inr\<close>), or rejects; \<open>Inl m\<close> carries what the catch block reads from the
  rejection, \<^verbatim>\<open>err instanceof Error ? err.message : String(err)\<close>.
  A listener is called with the job of the notification: it returns (\<open>None\<close>) or
  throws an error with a message.
\<close>

type_synonym JobHandler = "json option \<Rightarrow> string + json option"
type_synonym Listener = "Job \<Rightarrow> string option"

text \<open>
  The state \<^verbatim>\<open>createRunner\<close> closes over, and what its callbacks leave behind:
  \<^item> \<open>store\<close>: the contents of the storage the adapter works on;
  \<^item> \<open>handlers\<close>: the own properties of the object \<^verbatim>\<open>handlers\<close>, as
    \<^verbatim>\<open>register\<close> sets them;
  \<^item> \<open>listeners\<close>: the listeners of \<^verbatim>\<open>events\<close> with their event names, in the
    order \<^verbatim>\<open>on\<close> registered them;
  \<^item> \<open>emitted\<close>: every \<^verbatim>\<open>events.emit(event, job)\<close> so far; \<open>calls\<close>: every call
    of a listener so far (its position in \<open>listeners\<close>, the event, the job);
  \<^item> \<open>immediates\<close>: the jobs of the pending \<^verbatim>\<open>setImmediate(() => process(job))\<close>;
    \<open>timers\<close>: the delay and job of the pending
    \<^verbatim>\<open>setTimeout(() => process(job), delay)\<close>;
  \<^item> \<open>clock\<close>: \<^verbatim>\<open>Date.now()\<close>.
\<close>

record 's Runner =
  store :: 's
  handlers :: "string \<rightharpoonup> JobHandler"
  listeners :: "(string \<times> Listener) list"
  emitted :: "(string \<times> Job) list"
  calls :: "(nat \<times> string \<times> Job) list"
  immediates :: "Job list"
  timers :: "(nat \<times> Job) list"
  clock :: nat

text \<open>
  A step of an async function: it changes the runner's state and resolves or
  rejects. \<open>await m f\<close> is \<^verbatim>\<open>const x = await m; f(x)\<close>: a rejection of \<open>m\<close> leaves
  with the state \<open>m\<close> reached.
\<close>

type_synonym ('a, 's) async = "'s Runner \<Rightarrow> (js_error + 'a) \<times> 's Runner"

definition await :: "('a, 's) async \<Rightarrow> ('a \<Rightarrow> ('b, 's) async) \<Rightarrow> ('b, 's) async" where
  "await m f st = (case m st of (Inl e, st') \<Rightarrow> (Inl e, st') | (Inr x, st') \<Rightarrow> f x st')"

text \<open>A call of a storage operation that writes, at the current time.\<close>

definition storage_write :: "(nat \<Rightarrow> 's \<Rightarrow> js_error + 's) \<Rightarrow> (unit, 's) async" where
  "storage_write storage_op st =
     (case storage_op (clock st) (store st) of
        Inl e \<Rightarrow> (Inl e, st)
      | Inr s \<Rightarrow> (Inr (), st\<lparr>store := s\<rparr>))"

subsection \<open>Notifications (node:events)\<close>

text \<open>
  \<^verbatim>\<open>events.on(event, listener)\<close> appends the listener to the event's listeners.
  \<^verbatim>\<open>events.emit(event, job)\<close> calls the event's listeners synchronously, in the
  order they were registered, and an exception a listener throws leaves \<^verbatim>\<open>emit\<close>:
  this is the documented behaviour of Node's \<^verbatim>\<open>EventEmitter\<close>, which runner.ts
  uses as it is.
\<close>

definition on :: "string \<Rightarrow> Listener \<Rightarrow> 's Runner \<Rightarrow> 's Runner" where
  "on event listener st = st\<lparr>listeners := listeners st @ [(event, listener)]\<rparr>"

definition subscribed :: "string \<Rightarrow> (string \<times> Listener) list \<Rightarrow> (nat \<times> Listener) list" where
  "subscribed event ls =
     map (\<lambda>(i, e, l). (i, l)) (filter (\<lambda>(i, e, l). e = event) (enumerate 0 ls))"

fun callListeners :: "(nat \<times> Listener) list \<Rightarrow> Job \<Rightarrow> (js_error + unit) \<times> nat list" where
  "callListeners [] job = (Inr (), [])"
| "callListeners ((i, l) # ls) job =
     (case l job of
        Some msg \<Rightarrow> (Inl (Error msg), [i])
      | None \<Rightarrow> (case callListeners ls job of (r, called) \<Rightarrow> (r, i # called)))"

definition emit :: "string \<Rightarrow> Job \<Rightarrow> (unit, 's) async" where
  "emit event job st =
     (case callListeners (subscribed event (listeners st)) job of
        (r, called) \<Rightarrow>
          (r, st\<lparr>emitted := emitted st @ [(event, job)],
                 calls := calls st @ map (\<lambda>i. (i, event, job)) called\<rparr>))"

subsection \<open>process\<close>

text \<open>
  \<^verbatim>\<open>const handlers: Record<string, JobHandler> = {}\<close> is an ordinary object, so
  \<^verbatim>\<open>handlers[job.name]\<close> also finds the properties every object inherits from
  \<^verbatim>\<open>Object.prototype\<close>. \<open>inherited\<close> gives, for each of them, what awaiting its
  call \<^verbatim>\<open>handler(job.payload)\<close> yields in a module (strict code: \<^verbatim>\<open>this\<close> is
  \<^verbatim>\<open>undefined\<close>), following ECMAScript: \<^verbatim>\<open>toString\<close> returns
  \<^verbatim>\<open>"[object Undefined]"\<close>, \<^verbatim>\<open>constructor\<close> is \<^verbatim>\<open>Object\<close> and returns its argument
  as an object (an empty object for \<^verbatim>\<open>null\<close> and \<^verbatim>\<open>undefined\<close>, the wrapper
  of a primitive, written as the primitive), \<^verbatim>\<open>isPrototypeOf\<close> returns \<^verbatim>\<open>false\<close> for a primitive, the others
  throw a TypeError (\<^verbatim>\<open>__proto__\<close> is not callable), whose message is the
  engine's and written \<open>TypeError\<close> here.
\<close>

definition inherited :: "string \<rightharpoonup> JobHandler" where
  "inherited nm =
     (if nm = ''toString'' then Some (\<lambda>pl. Inr (Some (JString ''[object Undefined]'')))
      else if nm = ''constructor''
        then Some (\<lambda>pl. Inr (Some (case pl of
                                     None \<Rightarrow> JObject []
                                   | Some JNull \<Rightarrow> JObject []
                                   | Some v \<Rightarrow> v)))
      else if nm = ''isPrototypeOf''
        then Some (\<lambda>pl. case pl of
                     Some (JArray xs) \<Rightarrow> Inl ''TypeError''
                   | Some (JObject kvs) \<Rightarrow> Inl ''TypeError''
                   | _ \<Rightarrow> Inr (Some (JBool False)))
      else if nm \<in> set [''valueOf'', ''hasOwnProperty'', ''propertyIsEnumerable'',
                        ''toLocaleString'', ''__proto__'', ''__defineGetter__'',
                        ''__defineSetter__'', ''__lookupGetter__'', ''__lookupSetter__'']
        then Some (\<lambda>pl. Inl ''TypeError'')
      else None)"

definition lookupHandler :: "(string \<rightharpoonup> JobHandler) \<Rightarrow> string \<rightharpoonup> JobHandler" where
  "lookupHandler hs nm = (case hs nm of Some h \<Rightarrow> Some h | None \<Rightarrow> inherited nm)"

text \<open>
  \<^verbatim>\<open>const handler = handlers[job.name]; if (!handler) throw new Error(...);
  const result = await handler(job.payload);\<close>
\<close>

definition runHandler :: "(string \<rightharpoonup> JobHandler) \<Rightarrow> Job \<Rightarrow> js_error + json option" where
  "runHandler hs job =
     (case lookupHandler hs (name job) of
        None \<Rightarrow> Inl (Error (''No handler registered for job type: '' @ name job))
      | Some handler \<Rightarrow>
          (case handler (payload job) of Inl m \<Rightarrow> Inl (Error m) | Inr r \<Rightarrow> Inr r))"

definition invokeHandler :: "Job \<Rightarrow> (json option, 's) async" where
  "invokeHandler job st = (runHandler (handlers st) job, st)"

definition setTimeout :: "Job \<Rightarrow> nat \<Rightarrow> (unit, 's) async" where
  "setTimeout job delay st = (Inr (), st\<lparr>timers := timers st @ [(delay, job)]\<rparr>)"

definition setImmediate :: "Job \<Rightarrow> 's Runner \<Rightarrow> 's Runner" where
  "setImmediate job st = st\<lparr>immediates := immediates st @ [job]\<rparr>"

text \<open>The body of \<^verbatim>\<open>try\<close> in \<^verbatim>\<open>process\<close>.\<close>

definition tryBlock :: "'s StorageAdapter \<Rightarrow> Job \<Rightarrow> (unit, 's) async" where
  "tryBlock storage job =
     await (storage_write (\<lambda>now. markRunning storage now (jobId job))) (\<lambda>_.
     await (emit ''start'' job) (\<lambda>_.
     await (invokeHandler job) (\<lambda>res.
     await (storage_write (\<lambda>now. markDone storage now (jobId job) res)) (\<lambda>_.
     emit ''done'' (job\<lparr>result := res\<rparr>)))))"

text \<open>
  The body of \<^verbatim>\<open>catch (err)\<close>. \<open>job\<close> is the object \<^verbatim>\<open>process\<close> was called with:
  neither adapter changes it (both work on objects of their own, parsed from the
  file or built from the row), so \<open>attempts job\<close> is what it was at the call.
\<close>

definition catchBlock :: "'s StorageAdapter \<Rightarrow> Job \<Rightarrow> js_error \<Rightarrow> (unit, 's) async" where
  "catchBlock storage job err =
     await (storage_write (\<lambda>now. incAttempts storage now (jobId job))) (\<lambda>_.
     if int (attempts job) < maxAttempts job
     then setTimeout job (min (1000 * 2 ^ attempts job) 30000)
     else await (storage_write (\<lambda>now. markFailed storage now (jobId job) (message err))) (\<lambda>_.
          emit ''failed'' job))"

definition process :: "'s StorageAdapter \<Rightarrow> Job \<Rightarrow> (unit, 's) async" where
  "process storage job st =
     (case tryBlock storage job st of
        (Inr u, st') \<Rightarrow> (Inr u, st')
      | (Inl err, st') \<Rightarrow> catchBlock storage job err st')"

subsection \<open>add and recover\<close>

text \<open>
  \<open>options\<close> is \<^verbatim>\<open>options.maxAttempts\<close>, \<open>None\<close> when it is not given; \<open>newId\<close> is
  the id the adapter generates for this call.
\<close>

definition add :: "'s StorageAdapter \<Rightarrow> string \<Rightarrow> string \<Rightarrow> json option \<Rightarrow> int option \<Rightarrow> (Job, 's) async" where
  "add storage newId nm pl options st =
     (let maxAtt = (case options of Some m \<Rightarrow> m | None \<Rightarrow> 3)
      in case create storage newId (clock st) nm pl maxAtt (store st) of
           Inl e \<Rightarrow> (Inl e, st)
         | Inr (job, s) \<Rightarrow> (Inr job, setImmediate job (st\<lparr>store := s\<rparr>)))"

text \<open>\<^verbatim>\<open>for (const job of runningJobs) { await storage.resetJobStatus(...); events.emit('recover', job); }\<close>\<close>

fun resetRunning :: "'s StorageAdapter \<Rightarrow> Job list \<Rightarrow> (unit, 's) async" where
  "resetRunning storage [] st = (Inr (), st)"
| "resetRunning storage (job # jobs) st =
     await (storage_write (\<lambda>now. resetJobStatus storage now (jobId job) Pending)) (\<lambda>_.
     await (emit ''recover'' job) (\<lambda>_.
     resetRunning storage jobs)) st"

definition recover :: "'s StorageAdapter \<Rightarrow> (nat, 's) async" where
  "recover storage st =
     (case findJobsByStatus storage (Some Pending) (store st) of
        Inl e \<Rightarrow> (Inl e, st)
      | Inr pendingJobs \<Rightarrow>
          (case findJobsByStatus storage (Some Running) (store st) of
             Inl e \<Rightarrow> (Inl e, st)
           | Inr runningJobs \<Rightarrow>
               (case resetRunning storage runningJobs st of
                  (Inl e, st') \<Rightarrow> (Inl e, st')
                | (Inr _, st') \<Rightarrow>
                    (let jobsToRecover = pendingJobs @ runningJobs
                     in (Inr (length jobsToRecover), fold setImmediate jobsToRecover st')))))"

subsection \<open>The callbacks the runner schedules\<close>

text \<open>
  Node runs a pending \<^verbatim>\<open>setImmediate\<close> callback, or a timer once its delay has
  passed; each is \<^verbatim>\<open>() => process(job)\<close>, whose promise nobody awaits.
\<close>

definition runImmediate :: "'s StorageAdapter \<Rightarrow> 's Runner \<Rightarrow> 's Runner" where
  "runImmediate storage st =
     (case immediates st of
        [] \<Rightarrow> st
      | job # jobs \<Rightarrow> snd (process storage job (st\<lparr>immediates := jobs\<rparr>)))"

definition fireTimer :: "'s StorageAdapter \<Rightarrow> 's Runner \<Rightarrow> 's Runner" where
  "fireTimer storage st =
     (case timers st of
        [] \<Rightarrow> st
      | (delay, job) # ts \<Rightarrow>
          snd (process storage job (st\<lparr>timers := ts, clock := clock st + delay\<rparr>)))"

text \<open>A runner just created on a store: nothing registered, nothing scheduled.\<close>

definition createRunner :: "'s \<Rightarrow> nat \<Rightarrow> 's Runner" where
  "createRunner s now =
     \<lparr>store = s, handlers = Map.empty, listeners = [], emitted = [], calls = [],
      immediates = [], timers = [], clock = now\<rparr>"

section \<open>Notions the properties are stated with\<close>

text \<open>A disk none of whose calls is rejected.\<close>

definition healthy :: "Disk \<Rightarrow> bool" where
  "healthy d = (fault d = (\<lambda>_. None))"

text \<open>A runner none of whose listeners throws.\<close>

definition quiet :: "'s Runner \<Rightarrow> bool" where
  "quiet st = (\<forall>l \<in> snd ` set (listeners st). \<forall>job. l job = None)"

text \<open>The calls an emit makes when every listener of the event is called.\<close>

definition allCalled :: "string \<Rightarrow> Job \<Rightarrow> 's Runner \<Rightarrow> (nat \<times> string \<times> Job) list" where
  "allCalled event job st =
     map (\<lambda>i. (i, event, job)) (map fst (subscribed event (listeners st)))"

subsection \<open>A job whose handler always fails\<close>

text \<open>
  The runner is created on an empty, healthy disk at time 0; the handler registered
  for \<^verbatim>\<open>x\<close> always throws; \<^verbatim>\<open>add('x', null)\<close> is called, with the default
  \<^verbatim>\<open>maxAttempts\<close>, and the adapter generates the id \<^verbatim>\<open>j1\<close>. \<open>job1\<close> is the job
  \<^verbatim>\<open>add\<close> returns, \<open>afterAdd\<close> the state it leaves, and \<open>retrying n\<close> the state
  reached after the first call of \<^verbatim>\<open>process\<close> and \<open>n\<close> more, one per timer.
\<close>

definition alwaysFails :: JobHandler where
  "alwaysFails pl = Inl ''boom''"

definition emptyDisk :: Disk where
  "emptyDisk = \<lparr>files = [], fault = (\<lambda>_. None)\<rparr>"

definition job1 :: Job where
  "job1 = \<lparr>jobId = ''j1'', name = ''x'', status = Pending, payload = Some JNull, attempts = 0,
            maxAttempts = 3, error = None, result = None, createdAt = 0, updatedAt = 0\<rparr>"

definition afterAdd :: "Disk Runner" where
  "afterAdd =
     snd (add createFSAdapter ''j1'' ''x'' (Some JNull) None
            ((createRunner emptyDisk 0)\<lparr>handlers := [''x'' \<mapsto> alwaysFails]\<rparr>))"

definition retrying :: "nat \<Rightarrow> Disk Runner" where
  "retrying n =
     \<lparr>store = \<lparr>files = [job1\<lparr>status := Running, attempts := n + 1, updatedAt := 1000 * n\<rparr>],
                fault = (\<lambda>_. None)\<rparr>,
      handlers = [''x'' \<mapsto> alwaysFails], listeners = [],
      emitted = replicate (n + 1) (''start'', job1), calls = [],
      immediates = [], timers = [(1000, job1)], clock = 1000 * n\<rparr>"

subsection \<open>Recovery\<close>

text \<open>
  What recovery does to a stored job at the time \<open>now\<close>, and the jobs of a store
  with a given status.
\<close>

definition resetJob :: "nat \<Rightarrow> Job \<Rightarrow> Job" where
  "resetJob now j = (if status j = Running then j\<lparr>status := Pending, updatedAt := now\<rparr> else j)"

definition withStatus :: "JobStatus \<Rightarrow> Job list \<Rightarrow> Job list" where
  "withStatus s js = filter (\<lambda>j. status j = s) js"

text \<open>
  A store found at a restart, at time 50: the job \<^verbatim>\<open>p1\<close> is pending, the job \<^verbatim>\<open>r1\<close>
  was left running on its third attempt of three. One listener, which returns, is
  subscribed to \<^verbatim>\<open>recover\<close>.
\<close>

definition pendingJob :: Job where
  "pendingJob = \<lparr>jobId = ''p1'', name = ''x'', status = Pending, payload = Some JNull,
                  attempts = 0, maxAttempts = 3, error = None, result = None,
                  createdAt = 10, updatedAt = 10\<rparr>"

definition runningJob :: Job where
  "runningJob = \<lparr>jobId = ''r1'', name = ''x'', status = Running, payload = Some (JBool True),
                  attempts = 3, maxAttempts = 3, error = None, result = None,
                  createdAt = 20, updatedAt = 30\<rparr>"

definition atRestart :: "Disk Runner" where
  "atRestart =
     on ''recover'' (\<lambda>job. None)
       (createRunner \<lparr>files = [pendingJob, runningJob], fault = (\<lambda>_. None)\<rparr> 50)"

text \<open>
  The same store on a disk that has run full: every \<^verbatim>\<open>writeFile\<close> is rejected
  with \<^verbatim>\<open>ENOSPC\<close>, reading still works.
\<close>

definition diskFull :: "Disk Runner" where
  "diskFull =
     createRunner
       \<lparr>files = [pendingJob, runningJob],
        fault = (\<lambda>c. case c of WriteFile i \<Rightarrow> Some ''ENOSPC'' | _ \<Rightarrow> None)\<rparr> 50"

subsection \<open>Further runs the properties are checked on\<close>

text \<open>
  A table \<^verbatim>\<open>jobs\<close> with the one row of the job \<^verbatim>\<open>a\<close>, and two handlers: one that
  resolves with \<^verbatim>\<open>true\<close> and, above, the one that always throws.
\<close>

definition oneRow :: "JobsTable list" where
  "oneRow = [\<lparr>col_id = ''a'', col_name = ''x'', col_status = Pending, col_payload = JNull,
              col_attempts = 0, col_max_attempts = 3, col_result = None, col_error = None,
              col_created_at = 1, col_updated_at = 1\<rparr>]"

definition succeeds :: JobHandler where
  "succeeds pl = Inr (Some (JBool True))"

text \<open>
  A job named \<^verbatim>\<open>toString\<close>, stored and pending, in a runner where no handler is
  registered at all.
\<close>

definition toStringJob :: Job where
  "toStringJob = \<lparr>jobId = ''t1'', name = ''toString'', status = Pending, payload = Some JNull,
                   attempts = 0, maxAttempts = 3, error = None, result = None,
                   createdAt = 0, updatedAt = 0\<rparr>"

definition nothingRegistered :: "Disk Runner" where
  "nothingRegistered = createRunner \<lparr>files = [toStringJob], fault = (\<lambda>_. None)\<rparr> 5"

text \<open>
  The job \<open>job1\<close>, stored and pending, with the handler that resolves; and the job
  \<^verbatim>\<open>r1\<close> as recovery leaves it (pending, three attempts of three made), dispatched
  as the object recovery found, with the handler that always throws.
\<close>

definition willSucceed :: "Disk Runner" where
  "willSucceed =
     (createRunner \<lparr>files = [job1], fault = (\<lambda>_. None)\<rparr> 5)\<lparr>handlers := [''x'' \<mapsto> succeeds]\<rparr>"

definition lastAttempt :: "Disk Runner" where
  "lastAttempt =
     (createRunner \<lparr>files = [runningJob\<lparr>status := Pending, updatedAt := 50\<rparr>],
                    fault = (\<lambda>_. None)\<rparr> 60)\<lparr>handlers := [''x'' \<mapsto> alwaysFails]\<rparr>"





section \<open>Properties\<close>

subsection \<open>The filesystem adapter on a healthy disk\<close>

lemma healthy_files_update [simp]: "healthy (d\<lparr>files := fs\<rparr>) = healthy d"
  by (simp add: healthy_def)

lemma ensureJobsDir_healthy: "healthy d \<Longrightarrow> ensureJobsDir d = Inr ()"
  by (simp add: healthy_def ensureJobsDir_def)

lemma saveJob_healthy: "healthy d \<Longrightarrow> saveJob job d = Inr (d\<lparr>files := writeFile job (files d)\<rparr>)"
  by (simp add: healthy_def saveJob_def ensureJobsDir_def)

lemma loadJob_healthy: "healthy d \<Longrightarrow> loadJob i d = Inr (find (\<lambda>j. jobId j = i) (files d))"
  by (simp add: healthy_def loadJob_def)

lemma fs_update_healthy:
  "healthy d \<Longrightarrow> find (\<lambda>j. jobId j = i) (files d) = Some j0 \<Longrightarrow>
   fs_update f i d = Inr (d\<lparr>files := writeFile (f j0) (files d)\<rparr>)"
  by (simp add: fs_update_def loadJob_healthy saveJob_healthy)

lemma fs_update_missing:
  "healthy d \<Longrightarrow> find (\<lambda>j. jobId j = i) (files d) = None \<Longrightarrow>
   fs_update f i d = Inl (Error (''Job not found: '' @ i))"
  by (simp add: fs_update_def loadJob_healthy)

lemma find_writeFile_same:
  "jobId job = i \<Longrightarrow> find (\<lambda>j. jobId j = i) (writeFile job fs) = Some job"
  by (induction fs) auto

lemma find_writeFile_other:
  "jobId job \<noteq> i \<Longrightarrow> find (\<lambda>j. jobId j = i) (writeFile job fs) = find (\<lambda>j. jobId j = i) fs"
  by (induction fs) auto

lemma writeFile_twice:
  "jobId job' = jobId job \<Longrightarrow> writeFile job' (writeFile job fs) = writeFile job' fs"
  by (induction fs) auto

lemma find_jobId: "find (\<lambda>j. jobId j = i) fs = Some j0 \<Longrightarrow> jobId j0 = i"
  by (induction fs) (auto split: if_splits)

subsection \<open>Listeners that do not throw\<close>

lemma callListeners_quiet:
  "\<forall>l \<in> snd ` set ls. \<forall>job. l job = None \<Longrightarrow> callListeners ls job = (Inr (), map fst ls)"
  by (induction ls) auto

lemma subscribed_subset: "snd ` set (subscribed event ls) \<subseteq> snd ` set ls"
  by (force simp: subscribed_def in_set_enumerate_eq dest: nth_mem)

lemma subscribed_quiet:
  assumes "quiet st"
  shows "\<forall>l \<in> snd ` set (subscribed event (listeners st)). \<forall>job. l job = None"
proof
  fix l
  assume "l \<in> snd ` set (subscribed event (listeners st))"
  then have "l \<in> snd ` set (listeners st)"
    using subscribed_subset by (rule rev_subsetD)
  with assms show "\<forall>job. l job = None"
    unfolding quiet_def by (rule bspec)
qed

lemma emit_quiet:
  "quiet st \<Longrightarrow>
   emit event job st =
     (Inr (), st\<lparr>emitted := emitted st @ [(event, job)],
                  calls := calls st @ allCalled event job st\<rparr>)"
  by (simp add: emit_def allCalled_def callListeners_quiet subscribed_quiet)

lemma quiet_updates [simp]:
  "quiet (st\<lparr>store := s\<rparr>) = quiet st"
  "quiet (st\<lparr>emitted := es\<rparr>) = quiet st"
  "quiet (st\<lparr>calls := cs\<rparr>) = quiet st"
  "quiet (st\<lparr>timers := ts\<rparr>) = quiet st"
  "quiet (st\<lparr>immediates := js\<rparr>) = quiet st"
  "quiet (st\<lparr>clock := t\<rparr>) = quiet st"
  "quiet (st\<lparr>handlers := hs\<rparr>) = quiet st"
  by (simp_all add: quiet_def)

lemma allCalled_updates [simp]:
  "allCalled event job (st\<lparr>store := s\<rparr>) = allCalled event job st"
  "allCalled event job (st\<lparr>emitted := es\<rparr>) = allCalled event job st"
  "allCalled event job (st\<lparr>calls := cs\<rparr>) = allCalled event job st"
  "allCalled event job (st\<lparr>timers := ts\<rparr>) = allCalled event job st"
  "allCalled event job (st\<lparr>immediates := js\<rparr>) = allCalled event job st"
  "allCalled event job (st\<lparr>clock := t\<rparr>) = allCalled event job st"
  "allCalled event job (st\<lparr>handlers := hs\<rparr>) = allCalled event job st"
  by (simp_all add: allCalled_def)

subsection \<open>One call of process over the filesystem adapter\<close>

lemma await_emit_quiet:
  "quiet st \<Longrightarrow>
   await (emit event job) k st =
     k () (st\<lparr>emitted := emitted st @ [(event, job)],
               calls := calls st @ allCalled event job st\<rparr>)"
  by (simp add: await_def emit_quiet)

lemma await_invokeHandler:
  "await (invokeHandler job) k st =
     (case runHandler (handlers st) job of Inl e \<Rightarrow> (Inl e, st) | Inr r \<Rightarrow> k r st)"
  by (simp add: await_def invokeHandler_def split: sum.splits)

lemma fs_write:
  assumes "healthy (store st)"
    and "find (\<lambda>j. jobId j = i) (files (store st)) = Some j0"
  shows "storage_write (\<lambda>now. fs_update (f now) i) st =
           (Inr (), st\<lparr>store := (store st)\<lparr>files := writeFile (f (clock st) j0) (files (store st))\<rparr>\<rparr>)"
  using assms by (simp add: storage_write_def fs_update_healthy)

lemma await_fs_write:
  assumes "healthy (store st)"
    and "find (\<lambda>j. jobId j = i) (files (store st)) = Some j0"
  shows "await (storage_write (\<lambda>now. fs_update (f now) i)) k st =
           k () (st\<lparr>store := (store st)\<lparr>files := writeFile (f (clock st) j0) (files (store st))\<rparr>\<rparr>)"
  using assms by (simp add: await_def fs_write)

lemmas fs_ops = fs_markRunning_def fs_markDone_def fs_markFailed_def fs_incAttempts_def
  fs_resetJobStatus_def

lemma process_fs_done:
  assumes "healthy (store st)" and "quiet st"
    and "find (\<lambda>j. jobId j = jobId job) (files (store st)) = Some j0"
    and "runHandler (handlers st) job = Inr r"
  shows "process createFSAdapter job st =
           (Inr (),
            st\<lparr>store := (store st)\<lparr>files :=
                   writeFile (j0\<lparr>status := Done, result := r, updatedAt := clock st\<rparr>)
                     (files (store st))\<rparr>,
                emitted := emitted st @ [(''start'', job), (''done'', job\<lparr>result := r\<rparr>)],
                calls := calls st @ allCalled ''start'' job st
                           @ allCalled ''done'' (job\<lparr>result := r\<rparr>) st\<rparr>)"
proof -
  have i: "jobId j0 = jobId job"
    using assms(3) by (rule find_jobId)
  have "tryBlock createFSAdapter job st = (Inr (),
            st\<lparr>store := (store st)\<lparr>files :=
                   writeFile (j0\<lparr>status := Done, result := r, updatedAt := clock st\<rparr>)
                     (files (store st))\<rparr>,
                emitted := emitted st @ [(''start'', job), (''done'', job\<lparr>result := r\<rparr>)],
                calls := calls st @ allCalled ''start'' job st
                           @ allCalled ''done'' (job\<lparr>result := r\<rparr>) st\<rparr>)"
    using assms i
    by (simp add: tryBlock_def createFSAdapter_def fs_ops await_fs_write await_emit_quiet
        await_invokeHandler find_writeFile_same writeFile_twice emit_quiet)
  then show ?thesis
    by (simp add: process_def)
qed

lemma process_fs_retry:
  assumes "healthy (store st)" and "quiet st"
    and "find (\<lambda>j. jobId j = jobId job) (files (store st)) = Some j0"
    and "runHandler (handlers st) job = Inl err"
    and "int (attempts job) < maxAttempts job"
  shows "process createFSAdapter job st =
           (Inr (),
            st\<lparr>store := (store st)\<lparr>files :=
                   writeFile (j0\<lparr>status := Running, attempts := attempts j0 + 1,
                                  updatedAt := clock st\<rparr>)
                     (files (store st))\<rparr>,
                emitted := emitted st @ [(''start'', job)],
                calls := calls st @ allCalled ''start'' job st,
                timers := timers st @ [(min (1000 * 2 ^ attempts job) 30000, job)]\<rparr>)"
proof -
  have i: "jobId j0 = jobId job"
    using assms(3) by (rule find_jobId)
  have "tryBlock createFSAdapter job st = (Inl err,
            st\<lparr>store := (store st)\<lparr>files :=
                   writeFile (j0\<lparr>status := Running, updatedAt := clock st\<rparr>) (files (store st))\<rparr>,
                emitted := emitted st @ [(''start'', job)],
                calls := calls st @ allCalled ''start'' job st\<rparr>)"
    using assms i
    by (simp add: tryBlock_def createFSAdapter_def fs_ops await_fs_write await_emit_quiet
        await_invokeHandler)
  then show ?thesis
    using assms i
    by (simp add: process_def catchBlock_def createFSAdapter_def fs_ops await_fs_write
        setTimeout_def find_writeFile_same writeFile_twice)
qed

lemma process_fs_failed:
  assumes "healthy (store st)" and "quiet st"
    and "find (\<lambda>j. jobId j = jobId job) (files (store st)) = Some j0"
    and "runHandler (handlers st) job = Inl err"
    and "\<not> int (attempts job) < maxAttempts job"
  shows "process createFSAdapter job st =
           (Inr (),
            st\<lparr>store := (store st)\<lparr>files :=
                   writeFile (j0\<lparr>attempts := attempts j0 + 1, status := Failed,
                                  error := Some (message err), updatedAt := clock st\<rparr>)
                     (files (store st))\<rparr>,
                emitted := emitted st @ [(''start'', job), (''failed'', job)],
                calls := calls st @ allCalled ''start'' job st @ allCalled ''failed'' job st\<rparr>)"
proof -
  have i: "jobId j0 = jobId job"
    using assms(3) by (rule find_jobId)
  have "tryBlock createFSAdapter job st = (Inl err,
            st\<lparr>store := (store st)\<lparr>files :=
                   writeFile (j0\<lparr>status := Running, updatedAt := clock st\<rparr>) (files (store st))\<rparr>,
                emitted := emitted st @ [(''start'', job)],
                calls := calls st @ allCalled ''start'' job st\<rparr>)"
    using assms i
    by (simp add: tryBlock_def createFSAdapter_def fs_ops await_fs_write await_emit_quiet
        await_invokeHandler)
  then show ?thesis
    using assms i
    by (simp add: process_def catchBlock_def createFSAdapter_def fs_ops await_fs_write
        await_emit_quiet emit_quiet find_writeFile_same writeFile_twice)
qed


subsection \<open>A job whose handler always fails\<close>

lemma add_alwaysFails:
  "add createFSAdapter ''j1'' ''x'' (Some JNull) None
     ((createRunner emptyDisk 0)\<lparr>handlers := [''x'' \<mapsto> alwaysFails]\<rparr>) =
   (Inr job1,
    \<lparr>store = \<lparr>files = [job1], fault = (\<lambda>_. None)\<rparr>,
      handlers = [''x'' \<mapsto> alwaysFails], listeners = [], emitted = [], calls = [],
      immediates = [job1], timers = [], clock = 0\<rparr>)"
  by (simp add: add_def Let_def createFSAdapter_def fs_create_def saveJob_def ensureJobsDir_def
      createRunner_def emptyDisk_def job1_def setImmediate_def)

lemma runHandler_alwaysFails:
  "runHandler [''x'' \<mapsto> alwaysFails] job1 = Inl (Error ''boom'')"
  by (simp add: runHandler_def lookupHandler_def alwaysFails_def job1_def)

lemma runImmediate_afterAdd: "runImmediate createFSAdapter afterAdd = retrying 0"
proof -
  have "process createFSAdapter job1
          \<lparr>store = \<lparr>files = [job1], fault = (\<lambda>_. None)\<rparr>,
           handlers = [''x'' \<mapsto> alwaysFails], listeners = [], emitted = [], calls = [],
           immediates = [], timers = [], clock = 0\<rparr> = (Inr (), retrying 0)"
    by (subst process_fs_retry [where ?j0.0 = job1 and err = "Error ''boom''"])
       (simp_all add: healthy_def quiet_def runHandler_alwaysFails allCalled_def
         subscribed_def retrying_def, simp_all add: job1_def)
  then show ?thesis
    by (simp add: afterAdd_def add_alwaysFails runImmediate_def)
qed

lemma fireTimer_retrying: "fireTimer createFSAdapter (retrying n) = retrying (Suc n)"
proof -
  have "process createFSAdapter job1
          ((retrying n)\<lparr>timers := [], clock := 1000 * n + 1000\<rparr>) = (Inr (), retrying (Suc n))"
    by (subst process_fs_retry
          [where ?j0.0 = "job1\<lparr>status := Running, attempts := n + 1, updatedAt := 1000 * n\<rparr>"
             and err = "Error ''boom''"])
       (simp_all add: healthy_def quiet_def runHandler_alwaysFails allCalled_def
         subscribed_def retrying_def replicate_append_same, simp_all add: job1_def)
  then show ?thesis
    by (simp add: fireTimer_def retrying_def)
qed

lemma retries_forever:
  "(fireTimer createFSAdapter ^^ n) (runImmediate createFSAdapter afterAdd) = retrying n"
  by (induction n) (simp_all add: runImmediate_afterAdd fireTimer_retrying)

text \<open>
  Claim C1 says that a job's attempts count never exceeds its maxAttempts, and that the
  job becomes failed when a handler invocation fails with attempts at maxAttempts.
  In the code the test \<^verbatim>\<open>job.attempts < job.maxAttempts\<close> reads the object
  \<^verbatim>\<open>process\<close> was called with, which \<^verbatim>\<open>incAttempts\<close> never changes: for the job
  added with maxAttempts 3 and a handler that always fails, after the first attempt
  and \<open>n\<close> retries the stored record has attempts \<open>n + 1\<close> (beyond 3 from the
  third retry on), its status is still running, only start notifications were
  emitted, and one more retry is scheduled.
\<close>

theorem attempts_exceed_maxAttempts:
  "map (\<lambda>j. (attempts j, maxAttempts j, status j))
     (files (store ((fireTimer createFSAdapter ^^ n) (runImmediate createFSAdapter afterAdd))))
     = [(n + 1, 3, Running)]
   \<and> emitted ((fireTimer createFSAdapter ^^ n) (runImmediate createFSAdapter afterAdd))
     = replicate (n + 1) (''start'', job1)
   \<and> length (timers ((fireTimer createFSAdapter ^^ n) (runImmediate createFSAdapter afterAdd))) = 1"
  by (simp add: retries_forever retrying_def job1_def)

text \<open>
  Claim C2 says that each failure with attempts below maxAttempts schedules the next
  attempt after min(1000 * 2^attempts, 30000) ms of the attempts value that failure
  updated, so that maxAttempts 3 gives the delays 2000 and 4000 and then failed.
  In the code the delay is computed from the attempts of the object \<^verbatim>\<open>process\<close>
  was called with, which stays 0: for the same job, the timer pending after the first
  attempt and after each of \<open>n\<close> retries has the delay 1000, the time of the
  \<open>n\<close>-th retry is \<open>1000 * n\<close>, and the retried object still has attempts 0.
\<close>

theorem retry_delay_stays_1000:
  "timers ((fireTimer createFSAdapter ^^ n) (runImmediate createFSAdapter afterAdd))
     = [(1000, job1)]
   \<and> clock ((fireTimer createFSAdapter ^^ n) (runImmediate createFSAdapter afterAdd)) = 1000 * n
   \<and> attempts job1 = 0 \<and> maxAttempts job1 = 3"
  by (simp add: retries_forever retrying_def job1_def)

subsection \<open>recover over the filesystem adapter\<close>

lemma find_distinct:
  "distinct (map jobId fs) \<Longrightarrow> j \<in> set fs \<Longrightarrow> find (\<lambda>x. jobId x = jobId j) fs = Some j"
  by (induction fs) (auto simp: image_iff)

lemma loadAll_healthy:
  assumes "healthy d" and "distinct (map jobId (files d))"
  shows "set js \<subseteq> set (files d) \<Longrightarrow> loadAll (map jobId js) d = Inr (map Some js)"
  using assms by (induction js) (simp_all add: loadJob_healthy find_distinct)

lemma nonNull_Some: "nonNull (map Some js) = js"
  by (induction js) (simp_all add: nonNull_def)

lemma fs_findJobsByStatus_healthy:
  assumes "healthy d" and "distinct (map jobId (files d))"
  shows "fs_findJobsByStatus (Some s) d = Inr (withStatus s (files d))"
proof -
  have "loadAll (map jobId (files d)) d = Inr (map Some (files d))"
    using assms by (simp add: loadAll_healthy)
  then show ?thesis
    using assms(1)
    by (simp add: fs_findJobsByStatus_def ensureJobsDir_healthy healthy_def nonNull_Some
        withStatus_def)
qed

lemma writeFile_map:
  "distinct (map jobId fs) \<Longrightarrow> find (\<lambda>x. jobId x = jobId job) fs = Some x \<Longrightarrow>
   writeFile job fs = map (\<lambda>y. if jobId y = jobId job then job else y) fs"
proof (induction fs)
  case Nil
  then show ?case by simp
next
  case (Cons a fs)
  show ?case
  proof (cases "jobId a = jobId job")
    case True
    with Cons.prems(1) have "\<forall>y \<in> set fs. jobId y \<noteq> jobId job"
      by (auto simp: image_iff)
    then have "map (\<lambda>y. if jobId y = jobId job then job else y) fs = fs"
      by (simp add: map_idI)
    with True show ?thesis by simp
  next
    case False
    with Cons show ?thesis by simp
  qed
qed

lemma fold_setImmediate:
  "fold setImmediate js st = st\<lparr>immediates := immediates st @ js\<rparr>"
  by (induction js arbitrary: st) (simp_all add: setImmediate_def)

lemma find_Some_ex:
  "i \<in> jobId ` set fs \<Longrightarrow> \<exists>x. find (\<lambda>j. jobId j = i) fs = Some x"
  by (induction fs) auto

lemma jobId_map_reset:
  "map jobId (map (\<lambda>y. if jobId y = i then y\<lparr>status := s, updatedAt := t\<rparr> else y) fs)
     = map jobId fs"
  by (induction fs) auto

lemma reset_compose:
  "map (\<lambda>y. if jobId y \<in> jobId ` set rs then y\<lparr>status := s, updatedAt := t\<rparr> else y)
     (map (\<lambda>y. if jobId y = i then y\<lparr>status := s, updatedAt := t\<rparr> else y) fs)
   = map (\<lambda>y. if jobId y \<in> insert i (jobId ` set rs)
               then y\<lparr>status := s, updatedAt := t\<rparr> else y) fs"
  by (induction fs) auto

lemma resetRunning_fs:
  assumes "healthy (store st)" and "quiet st"
    and "distinct (map jobId (files (store st)))"
    and "jobId ` set rs \<subseteq> jobId ` set (files (store st))"
  shows "resetRunning createFSAdapter rs st =
           (Inr (),
            st\<lparr>store := (store st)\<lparr>files :=
                   map (\<lambda>y. if jobId y \<in> jobId ` set rs
                             then y\<lparr>status := Pending, updatedAt := clock st\<rparr> else y)
                     (files (store st))\<rparr>,
                emitted := emitted st @ map (Pair ''recover'') rs,
                calls := calls st @ concat (map (\<lambda>j. allCalled ''recover'' j st) rs)\<rparr>)"
  using assms
proof (induction rs arbitrary: st)
  case Nil
  then show ?case by simp
next
  case (Cons j rs)
  let ?fs = "files (store st)"
  let ?reset = "\<lambda>y::Job. y\<lparr>status := Pending, updatedAt := clock st\<rparr>"
  from Cons.prems(4) obtain x where x: "find (\<lambda>y. jobId y = jobId j) ?fs = Some x"
    using find_Some_ex [of "jobId j" ?fs] by auto
  then have xi: "jobId x = jobId j"
    by (rule find_jobId)
  have w: "writeFile (?reset x) ?fs = map (\<lambda>y. if jobId y = jobId j then ?reset y else y) ?fs"
  proof -
    have "writeFile (?reset x) ?fs
            = map (\<lambda>y. if jobId y = jobId (?reset x) then ?reset x else y) ?fs"
      using Cons.prems(3) x xi by (intro writeFile_map [where x = x]) simp_all
    also have "\<dots> = map (\<lambda>y. if jobId y = jobId j then ?reset y else y) ?fs"
      using Cons.prems(3) x xi
      by (intro map_cong refl) (auto dest: find_distinct)
    finally show ?thesis .
  qed
  let ?st1 = "st\<lparr>store := (store st)\<lparr>files := map (\<lambda>y. if jobId y = jobId j then ?reset y else y) ?fs\<rparr>,
                  emitted := emitted st @ [(''recover'', j)],
                  calls := calls st @ allCalled ''recover'' j st\<rparr>"
  have step: "resetRunning createFSAdapter (j # rs) st = resetRunning createFSAdapter rs ?st1"
    using Cons.prems(1,2) x w
    by (simp add: createFSAdapter_def fs_ops await_fs_write await_emit_quiet)
  let ?fs1 = "map (\<lambda>y. if jobId y = jobId j then ?reset y else y) ?fs"
  have ids: "map jobId ?fs1 = map jobId ?fs"
    by (rule jobId_map_reset)
  have fs1: "files (store ?st1) = ?fs1"
    by simp
  have "resetRunning createFSAdapter rs ?st1 =
          (Inr (),
            ?st1\<lparr>store := (store ?st1)\<lparr>files :=
                   map (\<lambda>y. if jobId y \<in> jobId ` set rs
                             then y\<lparr>status := Pending, updatedAt := clock ?st1\<rparr> else y)
                     (files (store ?st1))\<rparr>,
                emitted := emitted ?st1 @ map (Pair ''recover'') rs,
                calls := calls ?st1 @ concat (map (\<lambda>j. allCalled ''recover'' j ?st1) rs)\<rparr>)"
  proof (rule Cons.IH)
    show "healthy (store ?st1)" using Cons.prems(1) by simp
    show "quiet ?st1" using Cons.prems(2) by simp
    show "distinct (map jobId (files (store ?st1)))"
      using Cons.prems(3) by (simp only: fs1 ids)
    have "jobId ` set ?fs1 = jobId ` set ?fs"
      using ids by (metis list.set_map)
    then show "jobId ` set rs \<subseteq> jobId ` set (files (store ?st1))"
      using Cons.prems(4) unfolding fs1 by simp
  qed
  with step show ?case
    by (simp add: reset_compose)
qed

lemma jobId_inj:
  "distinct (map jobId fs) \<Longrightarrow> y \<in> set fs \<Longrightarrow> z \<in> set fs \<Longrightarrow> jobId y = jobId z \<Longrightarrow> y = z"
  by (auto simp: distinct_map dest: inj_onD)

lemma reset_running_ids:
  assumes "distinct (map jobId fs)"
  shows "map (\<lambda>y. if jobId y \<in> jobId ` set (withStatus Running fs)
                  then y\<lparr>status := Pending, updatedAt := now\<rparr> else y) fs
         = map (resetJob now) fs"
proof (rule map_cong [OF refl])
  fix y
  assume y: "y \<in> set fs"
  have "jobId y \<in> jobId ` set (withStatus Running fs) \<longleftrightarrow> status y = Running"
  proof
    assume "jobId y \<in> jobId ` set (withStatus Running fs)"
    then obtain z where z: "z \<in> set fs" "status z = Running" "jobId y = jobId z"
      by (auto simp: withStatus_def)
    with assms y have "y = z"
      by (intro jobId_inj [of fs])
    with z show "status y = Running"
      by simp
  next
    assume "status y = Running"
    with y show "jobId y \<in> jobId ` set (withStatus Running fs)"
      by (simp add: withStatus_def)
  qed
  then show "(if jobId y \<in> jobId ` set (withStatus Running fs)
              then y\<lparr>status := Pending, updatedAt := now\<rparr> else y) = resetJob now y"
    by (simp add: resetJob_def)
qed

lemma recover_fs:
  assumes "healthy (store st)" and "quiet st"
    and "distinct (map jobId (files (store st)))"
  shows "recover createFSAdapter st =
           (Inr (length (withStatus Pending (files (store st))
                          @ withStatus Running (files (store st)))),
            st\<lparr>store := (store st)\<lparr>files := map (resetJob (clock st)) (files (store st))\<rparr>,
                emitted := emitted st
                  @ map (Pair ''recover'') (withStatus Running (files (store st))),
                calls := calls st
                  @ concat (map (\<lambda>j. allCalled ''recover'' j st)
                             (withStatus Running (files (store st)))),
                immediates := immediates st
                  @ withStatus Pending (files (store st))
                  @ withStatus Running (files (store st))\<rparr>)"
proof -
  have sub: "jobId ` set (withStatus Running (files (store st))) \<subseteq> jobId ` set (files (store st))"
    by (auto simp: withStatus_def)
  have q: "findJobsByStatus createFSAdapter (Some s) (store st)
             = Inr (withStatus s (files (store st)))" for s
    using assms(1,3) by (simp add: createFSAdapter_def fs_findJobsByStatus_healthy)
  show ?thesis
    using assms
    by (simp add: recover_def q resetRunning_fs [OF assms(1,2,3) sub] reset_running_ids
        fold_setImmediate)
qed

text \<open>
  Claim C3: for every store contents, recover resets each job found running to
  pending, emitting one recover notification per such job, before any job is
  dispatched again; it then hands every job of the pending and the running set to the
  dispatcher asynchronously, and returns the count of the two sets together.
  Stated over the filesystem adapter, for every jobs directory (one file per id) on a
  healthy disk and listeners that return: recover returns that count; in the state it
  returns in, every stored job that was running is pending and no other status has
  changed, the notifications emitted are one recover per running job, in order, the
  jobs of both sets are the new pending \<^verbatim>\<open>setImmediate\<close> callbacks (none has run:
  no timer and no other notification was added). On a store of one pending and one
  running job the count is 2 (the witness).
\<close>

theorem recover_resets_then_dispatches:
  assumes "healthy (store st)" and "quiet st"
    and "distinct (map jobId (files (store st)))"
  shows "\<exists>st'. recover createFSAdapter st =
                  (Inr (length (withStatus Pending (files (store st))
                                 @ withStatus Running (files (store st)))), st')
           \<and> map status (files (store st'))
               = map (\<lambda>j. if status j = Running then Pending else status j) (files (store st))
           \<and> map jobId (files (store st')) = map jobId (files (store st))
           \<and> emitted st' = emitted st
               @ map (Pair ''recover'') (withStatus Running (files (store st)))
           \<and> immediates st' = immediates st
               @ withStatus Pending (files (store st))
               @ withStatus Running (files (store st))
           \<and> timers st' = timers st"
  using recover_fs [OF assms]
  by (simp add: resetJob_def comp_def if_distrib [of status] if_distrib [of jobId])

lemma atRestart_ok:
  "healthy (store atRestart) \<and> quiet atRestart \<and> distinct (map jobId (files (store atRestart)))"
  by (simp add: atRestart_def on_def createRunner_def healthy_def quiet_def
      pendingJob_def runningJob_def)

theorem recover_resets_then_dispatches_witness:
  "healthy (store atRestart) \<and> quiet atRestart
   \<and> distinct (map jobId (files (store atRestart)))
   \<and> map status (files (store atRestart)) = [Pending, Running]
   \<and> fst (recover createFSAdapter atRestart) = Inr 2
   \<and> map status (files (store (snd (recover createFSAdapter atRestart)))) = [Pending, Pending]
   \<and> emitted (snd (recover createFSAdapter atRestart)) = [(''recover'', runningJob)]
   \<and> immediates (snd (recover createFSAdapter atRestart)) = [pendingJob, runningJob]"
proof -
  have ok: "healthy (store atRestart)" "quiet atRestart"
    "distinct (map jobId (files (store atRestart)))"
    using atRestart_ok by simp_all
  have fs: "files (store atRestart) = [pendingJob, runningJob]"
    "emitted atRestart = []" "immediates atRestart = []"
    by (simp_all add: atRestart_def on_def createRunner_def)
  have st: "status pendingJob = Pending" "status runningJob = Running"
    by (simp_all add: pendingJob_def runningJob_def)
  from recover_resets_then_dispatches [OF ok]
  show ?thesis
    using ok by (auto simp: fs st withStatus_def)
qed

lemma resetJob_fields:
  "jobId (resetJob now j) = jobId j" "name (resetJob now j) = name j"
  "payload (resetJob now j) = payload j" "attempts (resetJob now j) = attempts j"
  "maxAttempts (resetJob now j) = maxAttempts j" "error (resetJob now j) = error j"
  "result (resetJob now j) = result j" "createdAt (resetJob now j) = createdAt j"
  by (simp_all add: resetJob_def)

text \<open>
  Claim C6: the transition from running to pending that recovery makes changes only
  the job's status (and its timestamp): the attempts count is not incremented,
  maxAttempts is not consulted, and every other field is unchanged.
  Stated over the filesystem adapter, for every jobs directory (one file per id) on a
  healthy disk and listeners that return: after recover, each stored job that was
  running is the same record with status pending and \<^verbatim>\<open>updatedAt\<close> the time of the
  recovery, whatever its attempts and maxAttempts are, and every other stored job is
  unchanged; so all fields but those two are the same in every record.
\<close>

theorem recovery_changes_only_status:
  assumes "healthy (store st)" and "quiet st"
    and "distinct (map jobId (files (store st)))"
  shows "files (store (snd (recover createFSAdapter st)))
           = map (\<lambda>j. if status j = Running
                       then j\<lparr>status := Pending, updatedAt := clock st\<rparr> else j)
               (files (store st))
         \<and> map attempts (files (store (snd (recover createFSAdapter st))))
             = map attempts (files (store st))
         \<and> map maxAttempts (files (store (snd (recover createFSAdapter st))))
             = map maxAttempts (files (store st))
         \<and> map (\<lambda>j. (jobId j, name j, payload j, error j, result j, createdAt j))
               (files (store (snd (recover createFSAdapter st))))
             = map (\<lambda>j. (jobId j, name j, payload j, error j, result j, createdAt j))
                 (files (store st))"
proof -
  have "files (store (snd (recover createFSAdapter st)))
          = map (resetJob (clock st)) (files (store st))"
    using recover_fs [OF assms] by simp
  moreover have "resetJob (clock st) = (\<lambda>j. if status j = Running
                       then j\<lparr>status := Pending, updatedAt := clock st\<rparr> else j)"
    by (rule ext) (simp add: resetJob_def)
  ultimately show ?thesis
    by (simp add: comp_def resetJob_fields del: resetJob_def)
qed

theorem recovery_changes_only_status_witness:
  "healthy (store atRestart) \<and> quiet atRestart
   \<and> distinct (map jobId (files (store atRestart)))
   \<and> files (store atRestart) = [pendingJob, runningJob]
   \<and> attempts runningJob = 3 \<and> maxAttempts runningJob = 3
   \<and> files (store (snd (recover createFSAdapter atRestart)))
       = [pendingJob, runningJob\<lparr>status := Pending, updatedAt := 50\<rparr>]"
proof -
  have ok: "healthy (store atRestart)" "quiet atRestart"
    "distinct (map jobId (files (store atRestart)))"
    using atRestart_ok by simp_all
  have fs: "files (store atRestart) = [pendingJob, runningJob]" "clock atRestart = 50"
    by (simp_all add: atRestart_def on_def createRunner_def)
  have st: "status pendingJob = Pending" "status runningJob = Running"
    "attempts runningJob = 3" "maxAttempts runningJob = 3"
    by (simp_all add: pendingJob_def runningJob_def)
  from recovery_changes_only_status [OF ok]
  show ?thesis
    using ok by (simp add: fs st)
qed

subsection \<open>Where add and recover can fail\<close>

lemma callListeners_Inl:
  "callListeners ls job = (Inl e, called) \<Longrightarrow>
   \<exists>l m. l \<in> snd ` set ls \<and> l job = Some m \<and> e = Error m"
proof (induction ls arbitrary: called)
  case Nil
  then show ?case by simp
next
  case (Cons a ls)
  obtain i l where a: "a = (i, l)" by (cases a)
  show ?case
  proof (cases "l job")
    case None
    with Cons.prems a obtain c where "callListeners ls job = (Inl e, c)"
      by (auto split: prod.splits)
    from Cons.IH [OF this] show ?thesis by auto
  next
    case (Some m)
    with Cons.prems a show ?thesis by force
  qed
qed

lemma subscribed_event:
  "l \<in> snd ` set (subscribed event ls) \<Longrightarrow> (event, l) \<in> set ls"
  by (force simp: subscribed_def in_set_enumerate_eq dest: nth_mem)

lemma emit_Inl:
  assumes "fst (emit event job st) = Inl e"
  shows "\<exists>l m. (event, l) \<in> set (listeners st) \<and> l job = Some m \<and> e = Error m"
proof -
  obtain r called where c: "callListeners (subscribed event (listeners st)) job = (r, called)"
    by (cases "callListeners (subscribed event (listeners st)) job")
  with assms have "r = Inl e"
    by (simp add: emit_def)
  with c obtain l m where l: "l \<in> snd ` set (subscribed event (listeners st))"
      "l job = Some m" "e = Error m"
    using callListeners_Inl [of "subscribed event (listeners st)" job e called] by auto
  from l(1) have "(event, l) \<in> set (listeners st)"
    by (rule subscribed_event)
  with l(2,3) show ?thesis
    by (intro exI [of _ l] exI [of _ m]) simp
qed

lemma emit_listeners [simp]: "listeners (snd (emit event job st)) = listeners st"
  by (simp add: emit_def split: prod.splits)

lemma storage_write_listeners [simp]: "listeners (snd (storage_write f st)) = listeners st"
  by (simp add: storage_write_def split: sum.splits)

lemma storage_write_Inl:
  "fst (storage_write f st) = Inl e \<Longrightarrow> f (clock st) (store st) = Inl e"
  by (simp add: storage_write_def split: sum.splits)

lemma resetRunning_Inl:
  "fst (resetRunning A rs st) = Inl e \<Longrightarrow>
   (\<exists>job now s. job \<in> set rs \<and> resetJobStatus A now (jobId job) Pending s = Inl e)
   \<or> (\<exists>l job m. (''recover'', l) \<in> set (listeners st) \<and> job \<in> set rs
         \<and> l job = Some m \<and> e = Error m)"
proof (induction rs arbitrary: st)
  case Nil
  then show ?case by simp
next
  case (Cons j rs)
  let ?w = "storage_write (\<lambda>now. resetJobStatus A now (jobId j) Pending) st"
  show ?case
  proof (cases "fst ?w")
    case (Inl e')
    with Cons.prems have "e' = e"
      by (cases ?w) (simp add: await_def)
    with Inl storage_write_Inl [of _ st e] show ?thesis
      by auto
  next
    case (Inr u)
    let ?st1 = "snd ?w"
    show ?thesis
    proof (cases "fst (emit ''recover'' j ?st1)")
      case (Inl e')
      with Inr Cons.prems have "e' = e"
        by (cases ?w; cases "emit ''recover'' j (snd ?w)") (simp add: await_def)
      with Inl obtain l m where l: "(''recover'', l) \<in> set (listeners ?st1)"
          "l j = Some m" "e = Error m"
        using emit_Inl [of "''recover''" j ?st1 e] by auto
      then have "\<exists>l job m. (''recover'', l) \<in> set (listeners st) \<and> job \<in> set (j # rs)
          \<and> l job = Some m \<and> e = Error m"
        by (intro exI [of _ l] exI [of _ j] exI [of _ m]) simp
      then show ?thesis
        by (rule disjI2)
    next
      case Inr2: (Inr u')
      let ?st2 = "snd (emit ''recover'' j ?st1)"
      from Inr Inr2 Cons.prems have "fst (resetRunning A rs ?st2) = Inl e"
        by (cases ?w; cases "emit ''recover'' j (snd ?w)") (simp add: await_def)
      from Cons.IH [OF this]
      have "(\<exists>job now s. job \<in> set rs \<and> resetJobStatus A now (jobId job) Pending s = Inl e)
          \<or> (\<exists>l job m. (''recover'', l) \<in> set (listeners st) \<and> job \<in> set rs
                \<and> l job = Some m \<and> e = Error m)"
        by simp
      then show ?thesis
      proof
        assume "\<exists>job now s. job \<in> set rs \<and> resetJobStatus A now (jobId job) Pending s = Inl e"
        then obtain job now s where "job \<in> set rs"
            "resetJobStatus A now (jobId job) Pending s = Inl e"
          by blast
        then have "\<exists>job now s. job \<in> set (j # rs)
            \<and> resetJobStatus A now (jobId job) Pending s = Inl e"
          by (intro exI [of _ job] exI [of _ now] exI [of _ s]) simp
        then show ?thesis
          by (rule disjI1)
      next
        assume "\<exists>l job m. (''recover'', l) \<in> set (listeners st) \<and> job \<in> set rs
                \<and> l job = Some m \<and> e = Error m"
        then obtain l job m where "(''recover'', l) \<in> set (listeners st)" "job \<in> set rs"
            "l job = Some m" "e = Error m"
          by blast
        then have "\<exists>l job m. (''recover'', l) \<in> set (listeners st) \<and> job \<in> set (j # rs)
            \<and> l job = Some m \<and> e = Error m"
          by (intro exI [of _ l] exI [of _ job] exI [of _ m]) simp
        then show ?thesis
          by (rule disjI2)
      qed
    qed
  qed
qed

lemma diskFull_queries:
  "findJobsByStatus createFSAdapter (Some Pending) (store diskFull) = Inr [pendingJob]"
  "findJobsByStatus createFSAdapter (Some Running) (store diskFull) = Inr [runningJob]"
  by (simp_all add: createFSAdapter_def diskFull_def createRunner_def fs_findJobsByStatus_def
      ensureJobsDir_def loadJob_def nonNull_def pendingJob_def runningJob_def)

lemma diskFull_recover:
  "fst (recover createFSAdapter diskFull) = Inl (SystemError ''ENOSPC'')"
proof -
  have "resetRunning createFSAdapter [runningJob] diskFull = (Inl (SystemError ''ENOSPC''), diskFull)"
    by (simp add: createFSAdapter_def diskFull_def createRunner_def await_def storage_write_def
      fs_resetJobStatus_def fs_update_def loadJob_def saveJob_def ensureJobsDir_def
      pendingJob_def runningJob_def)
  then show ?thesis
    by (simp add: recover_def diskFull_queries)
qed

lemma storage_write_handlers:
  "storage_write f (st\<lparr>handlers := hs\<rparr>)
     = (fst (storage_write f st), (snd (storage_write f st))\<lparr>handlers := hs\<rparr>)"
  by (simp add: storage_write_def split: sum.splits)

lemma emit_handlers:
  "emit event job (st\<lparr>handlers := hs\<rparr>)
     = (fst (emit event job st), (snd (emit event job st))\<lparr>handlers := hs\<rparr>)"
  by (simp add: emit_def split: prod.splits)

lemma await_handlers:
  assumes "m (st\<lparr>handlers := hs\<rparr>) = (fst (m st), (snd (m st))\<lparr>handlers := hs\<rparr>)"
    and "\<And>x st. f x (st\<lparr>handlers := hs\<rparr>) = (fst (f x st), (snd (f x st))\<lparr>handlers := hs\<rparr>)"
  shows "await m f (st\<lparr>handlers := hs\<rparr>)
     = (fst (await m f st), (snd (await m f st))\<lparr>handlers := hs\<rparr>)"
  using assms by (cases "m st") (simp add: await_def split: sum.splits)

lemma resetRunning_handlers:
  "resetRunning A rs (st\<lparr>handlers := hs\<rparr>)
     = (fst (resetRunning A rs st), (snd (resetRunning A rs st))\<lparr>handlers := hs\<rparr>)"
proof (induction rs arbitrary: st)
  case Nil
  then show ?case by simp
next
  case (Cons j rs)
  show ?case
    unfolding resetRunning.simps
    by (intro await_handlers storage_write_handlers emit_handlers Cons.IH)
qed

lemma recover_handlers:
  "fst (recover A (st\<lparr>handlers := hs\<rparr>)) = fst (recover A st)"
  by (simp add: recover_def resetRunning_handlers split: sum.splits prod.splits)

lemma add_handlers:
  "fst (add A newId nm pl options (st\<lparr>handlers := hs\<rparr>)) = fst (add A newId nm pl options st)"
  by (simp add: add_def Let_def split: sum.splits prod.splits)

text \<open>
  Claim C4, as stated, has recover fail only if its initial storage queries fail.
  On the disk that has run full both queries succeed, and recover still rejects: the
  \<^verbatim>\<open>resetJobStatus\<close> it awaits for the running job cannot write.
\<close>

theorem recover_fails_though_queries_succeed:
  "findJobsByStatus createFSAdapter (Some Pending) (store diskFull) = Inr [pendingJob]
   \<and> findJobsByStatus createFSAdapter (Some Running) (store diskFull) = Inr [runningJob]
   \<and> fst (recover createFSAdapter diskFull) = Inl (SystemError ''ENOSPC'')"
  by (simp add: diskFull_queries diskFull_recover)

subsection \<open>When recover rejects\<close>

lemma resetRunning_append:
  "resetRunning A (xs @ ys) st =
     (case resetRunning A xs st of
        (Inl e, st') \<Rightarrow> (Inl e, st')
      | (Inr u, st') \<Rightarrow> resetRunning A ys st')"
proof (induction xs arbitrary: st)
  case Nil
  then show ?case by simp
next
  case (Cons j xs)
  show ?case
    by (simp add: await_def Cons.IH split: prod.splits sum.splits)
qed

lemma resetRunning_Cons:
  "resetRunning A (job # jobs) st =
     (case resetRunning A [job] st of
        (Inl e, st') \<Rightarrow> (Inl e, st')
      | (Inr u, st') \<Rightarrow> resetRunning A jobs st')"
  using resetRunning_append [of A "[job]" jobs st] by simp

lemma resetRunning_fails:
  "fst (resetRunning A rs st) = Inl e \<Longrightarrow>
   \<exists>before job rest st'. rs = before @ job # rest
      \<and> resetRunning A before st = (Inr (), st')
      \<and> fst (resetRunning A [job] st') = Inl e"
proof (induction rs arbitrary: st)
  case Nil
  then show ?case by simp
next
  case (Cons j rs)
  obtain r st1 where one: "resetRunning A [j] st = (r, st1)"
    by (cases "resetRunning A [j] st")
  show ?case
  proof (cases r)
    case (Inl e')
    with one Cons.prems have "e' = e"
      by (simp add: resetRunning_Cons [of A j rs] del: resetRunning.simps)
    with Inl one have "fst (resetRunning A [j] st) = Inl e"
      by (simp del: resetRunning.simps)
    then have "j # rs = [] @ j # rs \<and> resetRunning A [] st = (Inr (), st)
        \<and> fst (resetRunning A [j] st) = Inl e"
      by (simp del: resetRunning.simps) simp
    then show ?thesis
      by blast
  next
    case (Inr u)
    with one Cons.prems have "fst (resetRunning A rs st1) = Inl e"
      by (simp add: resetRunning_Cons [of A j rs] del: resetRunning.simps)
    from Cons.IH [OF this] obtain before job rest st'
      where d: "rs = before @ job # rest" "resetRunning A before st1 = (Inr (), st')"
        "fst (resetRunning A [job] st') = Inl e"
      by blast
    from one Inr d(2) have "resetRunning A (j # before) st = (Inr (), st')"
      by (simp add: resetRunning_Cons [of A j before] del: resetRunning.simps)
    with d(1,3) have "j # rs = (j # before) @ job # rest
        \<and> resetRunning A (j # before) st = (Inr (), st')
        \<and> fst (resetRunning A [job] st') = Inl e"
      by (simp del: resetRunning.simps)
    then show ?thesis
      by blast
  qed
qed

lemma resetRunning_fails_at:
  assumes "resetRunning A before st = (Inr (), st')"
    and "fst (resetRunning A [job] st') = Inl e"
  shows "fst (resetRunning A (before @ job # rest) st) = Inl e"
proof -
  obtain r st2 where one: "resetRunning A [job] st' = (r, st2)"
    by (cases "resetRunning A [job] st'")
  with assms(2) have "r = Inl e" by (simp del: resetRunning.simps)
  with one have "resetRunning A (job # rest) st' = (Inl e, st2)"
    by (simp add: resetRunning_Cons [of A job rest] del: resetRunning.simps)
  with assms(1) show ?thesis
    by (simp add: resetRunning_append del: resetRunning.simps)
qed

lemma resetRunning_one:
  "(fst (resetRunning A [job] st) = Inl e) =
     (resetJobStatus A (clock st) (jobId job) Pending (store st) = Inl e
      \<or> (\<exists>s. resetJobStatus A (clock st) (jobId job) Pending (store st) = Inr s
            \<and> fst (emit ''recover'' job (st\<lparr>store := s\<rparr>)) = Inl e))"
  by (cases "resetJobStatus A (clock st) (jobId job) Pending (store st)";
      cases "emit ''recover'' job (st\<lparr>store := projr (resetJobStatus A (clock st) (jobId job) Pending (store st))\<rparr>)";
      cases "fst (emit ''recover'' job (st\<lparr>store := projr (resetJobStatus A (clock st) (jobId job) Pending (store st))\<rparr>))")
     (auto simp: await_def storage_write_def)


lemma callListeners_throws:
  "(fst (callListeners ls job) = Inl e) =
     (\<exists>pre i l post m. ls = pre @ (i, l) # post \<and> (\<forall>(k, l') \<in> set pre. l' job = None)
         \<and> l job = Some m \<and> e = Error m)"
proof (induction ls)
  case Nil
  then show ?case by simp
next
  case (Cons a ls)
  obtain i l where a: "a = (i, l)" by (cases a)
  show ?case
  proof (cases "l job")
    case (Some m)
    have "(\<exists>pre i' l' post m'. (i, l) # ls = pre @ (i', l') # post
              \<and> (\<forall>(k, l'') \<in> set pre. l'' job = None)
              \<and> l' job = Some m' \<and> e = Error m') = (e = Error m)"
    proof
      assume "\<exists>pre i' l' post m'. (i, l) # ls = pre @ (i', l') # post
              \<and> (\<forall>(k, l'') \<in> set pre. l'' job = None)
              \<and> l' job = Some m' \<and> e = Error m'"
      then obtain pre i' l' post m' where d: "(i, l) # ls = pre @ (i', l') # post"
          "\<forall>(k, l'') \<in> set pre. l'' job = None" "l' job = Some m'" "e = Error m'"
        by blast
      show "e = Error m"
      proof (cases pre)
        case Nil
        with d Some show ?thesis by simp
      next
        case (Cons b pre')
        with d(1,2) Some show ?thesis by auto
      qed
    next
      assume "e = Error m"
      with Some have "(i, l) # ls = [] @ (i, l) # ls
              \<and> (\<forall>(k, l'') \<in> set []. l'' job = None)
              \<and> l job = Some m \<and> e = Error m"
        by simp
      then show "\<exists>pre i' l' post m'. (i, l) # ls = pre @ (i', l') # post
              \<and> (\<forall>(k, l'') \<in> set pre. l'' job = None)
              \<and> l' job = Some m' \<and> e = Error m'"
        by blast
    qed
    with a Some show ?thesis
      by auto
  next
    case None
    have "(\<exists>pre i' l' post m'. (i, l) # ls = pre @ (i', l') # post
              \<and> (\<forall>(k, l'') \<in> set pre. l'' job = None)
              \<and> l' job = Some m' \<and> e = Error m')
          = (\<exists>pre i' l' post m'. ls = pre @ (i', l') # post
              \<and> (\<forall>(k, l'') \<in> set pre. l'' job = None)
              \<and> l' job = Some m' \<and> e = Error m')"
    proof
      assume "\<exists>pre i' l' post m'. (i, l) # ls = pre @ (i', l') # post
              \<and> (\<forall>(k, l'') \<in> set pre. l'' job = None)
              \<and> l' job = Some m' \<and> e = Error m'"
      then obtain pre i' l' post m' where d: "(i, l) # ls = pre @ (i', l') # post"
          "\<forall>(k, l'') \<in> set pre. l'' job = None" "l' job = Some m'" "e = Error m'"
        by blast
      show "\<exists>pre i' l' post m'. ls = pre @ (i', l') # post
              \<and> (\<forall>(k, l'') \<in> set pre. l'' job = None)
              \<and> l' job = Some m' \<and> e = Error m'"
      proof (cases pre)
        case Nil
        with d None show ?thesis by simp
      next
        case (Cons b pre')
        with d have "ls = pre' @ (i', l') # post
              \<and> (\<forall>(k, l'') \<in> set pre'. l'' job = None)
              \<and> l' job = Some m' \<and> e = Error m'"
          by simp
        then show ?thesis by blast
      qed
    next
      assume "\<exists>pre i' l' post m'. ls = pre @ (i', l') # post
              \<and> (\<forall>(k, l'') \<in> set pre. l'' job = None)
              \<and> l' job = Some m' \<and> e = Error m'"
      then obtain pre i' l' post m' where d: "ls = pre @ (i', l') # post"
          "\<forall>(k, l'') \<in> set pre. l'' job = None" "l' job = Some m'" "e = Error m'"
        by blast
      with None have "(i, l) # ls = ((i, l) # pre) @ (i', l') # post
              \<and> (\<forall>(k, l'') \<in> set ((i, l) # pre). l'' job = None)
              \<and> l' job = Some m' \<and> e = Error m'"
        by simp
      then show "\<exists>pre i' l' post m'. (i, l) # ls = pre @ (i', l') # post
              \<and> (\<forall>(k, l'') \<in> set pre. l'' job = None)
              \<and> l' job = Some m' \<and> e = Error m'"
        by blast
    qed
    moreover from None have "fst (callListeners ((i, l) # ls) job) = fst (callListeners ls job)"
      by (simp split: prod.splits)
    ultimately show ?thesis
      unfolding a using Cons.IH by (simp only:)
  qed
qed

lemma emit_throws:
  "(fst (emit event job st) = Inl e) =
     (\<exists>pre i l post m. subscribed event (listeners st) = pre @ (i, l) # post
         \<and> (\<forall>(k, l') \<in> set pre. l' job = None) \<and> l job = Some m \<and> e = Error m)"
proof -
  have "fst (emit event job st) = fst (callListeners (subscribed event (listeners st)) job)"
    by (simp add: emit_def split: prod.splits)
  then show ?thesis
    by (simp only: callListeners_throws)
qed

lemma recover_rejects:
  "(fst (recover A st) = Inl e) =
     (findJobsByStatus A (Some Pending) (store st) = Inl e
      \<or> (\<exists>pendingJobs. findJobsByStatus A (Some Pending) (store st) = Inr pendingJobs
            \<and> findJobsByStatus A (Some Running) (store st) = Inl e)
      \<or> (\<exists>pendingJobs before job rest st'.
            findJobsByStatus A (Some Pending) (store st) = Inr pendingJobs
            \<and> findJobsByStatus A (Some Running) (store st) = Inr (before @ job # rest)
            \<and> resetRunning A before st = (Inr (), st')
            \<and> (resetJobStatus A (clock st') (jobId job) Pending (store st') = Inl e
                \<or> (\<exists>s. resetJobStatus A (clock st') (jobId job) Pending (store st') = Inr s
                      \<and> fst (emit ''recover'' job (st'\<lparr>store := s\<rparr>)) = Inl e))))"
proof (cases "findJobsByStatus A (Some Pending) (store st)")
  case (Inl e')
  then show ?thesis by (simp add: recover_def)
next
  case P: (Inr pendingJobs)
  show ?thesis
  proof (cases "findJobsByStatus A (Some Running) (store st)")
    case (Inl e')
    with P show ?thesis by (simp add: recover_def)
  next
    case R: (Inr runningJobs)
    have 1: "(fst (recover A st) = Inl e) = (fst (resetRunning A runningJobs st) = Inl e)"
      using P R by (simp add: recover_def Let_def split: prod.splits sum.splits)
    have 2: "(fst (resetRunning A runningJobs st) = Inl e) =
        (\<exists>before job rest st'. runningJobs = before @ job # rest
            \<and> resetRunning A before st = (Inr (), st')
            \<and> fst (resetRunning A [job] st') = Inl e)"
    proof
      assume "fst (resetRunning A runningJobs st) = Inl e"
      then show "\<exists>before job rest st'. runningJobs = before @ job # rest
            \<and> resetRunning A before st = (Inr (), st')
            \<and> fst (resetRunning A [job] st') = Inl e"
        by (rule resetRunning_fails)
    next
      assume "\<exists>before job rest st'. runningJobs = before @ job # rest
            \<and> resetRunning A before st = (Inr (), st')
            \<and> fst (resetRunning A [job] st') = Inl e"
      then obtain before job rest st' where "runningJobs = before @ job # rest"
          "resetRunning A before st = (Inr (), st')"
          "fst (resetRunning A [job] st') = Inl e"
        by blast
      then show "fst (resetRunning A runningJobs st) = Inl e"
        using resetRunning_fails_at [of A before st st' job e rest] by simp
    qed
    show ?thesis
      unfolding 1 2 resetRunning_one using P R by simp
  qed
qed

lemma recover_returns:
  "(fst (recover A st) = Inr n) =
     (\<exists>pendingJobs runningJobs st'.
        findJobsByStatus A (Some Pending) (store st) = Inr pendingJobs
        \<and> findJobsByStatus A (Some Running) (store st) = Inr runningJobs
        \<and> resetRunning A runningJobs st = (Inr (), st')
        \<and> n = length (pendingJobs @ runningJobs))"
  by (cases "findJobsByStatus A (Some Pending) (store st)";
      cases "findJobsByStatus A (Some Running) (store st)";
      cases "resetRunning A (projr (findJobsByStatus A (Some Running) (store st))) st";
      cases "fst (resetRunning A (projr (findJobsByStatus A (Some Running) (store st))) st)")
     (auto simp: recover_def Let_def)


text \<open>
  Claim C4, amended: add and recover never raise an error merely because a job will
  eventually fail. For every adapter and input, add rejects exactly when the storage
  create rejects, with that error, and otherwise returns the created job. recover
  rejects with an error exactly when one of its own calls rejects with it, in the
  state recover has reached by then: the query for the pending jobs; after it the
  query for the running jobs; or, for a job found running, once the running jobs
  before it have been reset and notified, its \<^verbatim>\<open>resetJobStatus\<close> at the current
  time and store, or after that the emit of recover for it, which throws exactly the
  error of the first listener of the event that throws. Otherwise recover returns
  the number of pending and running jobs its queries found. Neither result depends
  on the registered handlers.
\<close>

theorem add_and_recover_failures:
  "fst (add A newId nm pl options st)
     = (case create A newId (clock st) nm pl (case options of Some m \<Rightarrow> m | None \<Rightarrow> 3)
               (store st) of
          Inl e \<Rightarrow> Inl e
        | Inr (job, s) \<Rightarrow> Inr job)
   \<and> (fst (recover A st) = Inl e) =
       (findJobsByStatus A (Some Pending) (store st) = Inl e
        \<or> (\<exists>pendingJobs. findJobsByStatus A (Some Pending) (store st) = Inr pendingJobs
              \<and> findJobsByStatus A (Some Running) (store st) = Inl e)
        \<or> (\<exists>pendingJobs before job rest st'.
              findJobsByStatus A (Some Pending) (store st) = Inr pendingJobs
              \<and> findJobsByStatus A (Some Running) (store st) = Inr (before @ job # rest)
              \<and> resetRunning A before st = (Inr (), st')
              \<and> (resetJobStatus A (clock st') (jobId job) Pending (store st') = Inl e
                  \<or> (\<exists>s. resetJobStatus A (clock st') (jobId job) Pending (store st') = Inr s
                        \<and> fst (emit ''recover'' job (st'\<lparr>store := s\<rparr>)) = Inl e))))
   \<and> (fst (emit event notified st) = Inl e) =
       (\<exists>pre i l post m. subscribed event (listeners st) = pre @ (i, l) # post
           \<and> (\<forall>(k, l') \<in> set pre. l' notified = None) \<and> l notified = Some m \<and> e = Error m)
   \<and> (fst (recover A st) = Inr n) =
       (\<exists>pendingJobs runningJobs st'.
          findJobsByStatus A (Some Pending) (store st) = Inr pendingJobs
          \<and> findJobsByStatus A (Some Running) (store st) = Inr runningJobs
          \<and> resetRunning A runningJobs st = (Inr (), st')
          \<and> n = length (pendingJobs @ runningJobs))
   \<and> fst (add A newId nm pl options (st\<lparr>handlers := hs\<rparr>)) = fst (add A newId nm pl options st)
   \<and> fst (recover A (st\<lparr>handlers := hs\<rparr>)) = fst (recover A st)"
proof -
  have a: "fst (add A newId nm pl options st)
     = (case create A newId (clock st) nm pl (case options of Some m \<Rightarrow> m | None \<Rightarrow> 3)
               (store st) of
          Inl e \<Rightarrow> Inl e
        | Inr (job, s) \<Rightarrow> Inr job)"
    by (simp add: add_def Let_def split: sum.splits prod.splits)
  show ?thesis
    by (intro conjI a recover_rejects emit_throws recover_returns add_handlers
        recover_handlers)
qed

theorem add_and_recover_failures_witness:
  "resetJobStatus createFSAdapter (clock diskFull) (jobId runningJob) Pending (store diskFull)
     = Inl (SystemError ''ENOSPC'')
   \<and> fst (recover createFSAdapter diskFull) = Inl (SystemError ''ENOSPC'')
   \<and> fst (add createFSAdapter ''n1'' ''x'' (Some JNull) None diskFull)
       = Inl (SystemError ''ENOSPC'')
   \<and> fst (recover createFSAdapter atRestart) = Inr 2
   \<and> fst (recover createFSAdapter atRestart) \<noteq> Inl (SystemError ''EIO'')"
proof -
  have w: "resetJobStatus createFSAdapter (clock diskFull) (jobId runningJob) Pending
             (store diskFull) = Inl (SystemError ''ENOSPC'')"
    by (simp add: createFSAdapter_def diskFull_def createRunner_def fs_resetJobStatus_def
        fs_update_def loadJob_def saveJob_def ensureJobsDir_def pendingJob_def runningJob_def)
  have c: "create createFSAdapter ''n1'' (clock diskFull) ''x'' (Some JNull) 3 (store diskFull)
             = Inl (SystemError ''ENOSPC'')"
    by (simp add: createFSAdapter_def diskFull_def createRunner_def fs_create_def Let_def
        saveJob_def ensureJobsDir_def)
  have a: "fst (recover createFSAdapter atRestart) = Inr 2"
    using recover_fs [of atRestart] atRestart_ok
    by (simp add: atRestart_def on_def createRunner_def withStatus_def pendingJob_def
        runningJob_def)
  note inst = add_and_recover_failures
    [of createFSAdapter "''n1''" "''x''" "Some JNull" None diskFull "SystemError ''ENOSPC''"
        "''recover''" runningJob 0 Map.empty]
  from inst have "fst (add createFSAdapter ''n1'' ''x'' (Some JNull) None diskFull)
      = Inl (SystemError ''ENOSPC'')"
    using c by simp
  moreover have "\<exists>pendingJobs before job rest st'.
        findJobsByStatus createFSAdapter (Some Pending) (store diskFull) = Inr pendingJobs
        \<and> findJobsByStatus createFSAdapter (Some Running) (store diskFull)
            = Inr (before @ job # rest)
        \<and> resetRunning createFSAdapter before diskFull = (Inr (), st')
        \<and> (resetJobStatus createFSAdapter (clock st') (jobId job) Pending (store st')
              = Inl (SystemError ''ENOSPC'')
            \<or> (\<exists>s. resetJobStatus createFSAdapter (clock st') (jobId job) Pending (store st')
                      = Inr s
                  \<and> fst (emit ''recover'' job (st'\<lparr>store := s\<rparr>))
                      = Inl (SystemError ''ENOSPC'')))"
    using w diskFull_queries
    by (intro exI [of _ "[pendingJob]"] exI [of _ "[]"] exI [of _ runningJob]
        exI [of _ diskFull]) simp
  then have "fst (recover createFSAdapter diskFull) = Inl (SystemError ''ENOSPC'')"
    by (intro inst [THEN conjunct2, THEN conjunct1, THEN iffD2] disjI2)
  ultimately show ?thesis
    using w a by simp
qed

subsection \<open>Updates of a missing id\<close>

lemma kysely_update_missing:
  "i \<notin> set (map col_id db) \<Longrightarrow> kysely_update f i db = Inr db"
  by (induction db) (auto simp: kysely_update_def)

text \<open>
  Claim C8 says that markRunning, markDone, markFailed and incAttempts, called with an
  id that is not in the store, signal a job-not-found error. The filesystem adapter
  does; the Kysely adapter's updates are \<^verbatim>\<open>UPDATE ... WHERE id = ?\<close>, which change
  no row and complete: on the table with the one job \<^verbatim>\<open>a\<close>, each of the four
  operations called with the id \<^verbatim>\<open>missing\<close> resolves and leaves the table as it
  was, where the filesystem adapter's rejects with \<^verbatim>\<open>Job not found: missing\<close>.
\<close>

theorem kysely_updates_of_missing_id_are_silent:
  "markRunning createKyselyAdapter 7 ''missing'' oneRow = Inr oneRow
   \<and> markDone createKyselyAdapter 7 ''missing'' (Some (JBool True)) oneRow = Inr oneRow
   \<and> markFailed createKyselyAdapter 7 ''missing'' ''boom'' oneRow = Inr oneRow
   \<and> incAttempts createKyselyAdapter 7 ''missing'' oneRow = Inr oneRow
   \<and> getJob createKyselyAdapter ''missing'' oneRow = Inr None
   \<and> markRunning createFSAdapter 7 ''missing'' emptyDisk = Inl (Error ''Job not found: missing'')"
  by (simp add: createKyselyAdapter_def kysely_markRunning_def kysely_markDone_def
      kysely_markFailed_def kysely_incAttempts_def kysely_update_def kysely_getJob_def
      oneRow_def createFSAdapter_def fs_markRunning_def fs_update_def loadJob_def emptyDisk_def)

subsection \<open>A job without a handler\<close>

lemma no_handler_is_a_failure:
  "handlers st (name job) = None \<Longrightarrow> inherited (name job) = None \<Longrightarrow>
   runHandler (handlers st) job
     = Inl (Error (''No handler registered for job type: '' @ name job))"
  by (simp add: runHandler_def lookupHandler_def)

text \<open>
  Claim C9 says that a job dispatched when no handler is registered under its name is
  treated as a handler failure with the message
  \<^verbatim>\<open>No handler registered for job type: <name>\<close>. The code looks the handler up
  with \<^verbatim>\<open>handlers[job.name]\<close> in an ordinary object, which also finds inherited
  properties: for the job named \<^verbatim>\<open>toString\<close>, with no handler registered at all,
  the lookup yields \<^verbatim>\<open>Object.prototype.toString\<close>, the call returns
  \<^verbatim>\<open>"[object Undefined]"\<close>, and the job is marked done with that result and
  notified as done; its attempts stay 0 and no error is stored.
\<close>

theorem inherited_name_runs_as_handler:
  "handlers nothingRegistered = Map.empty
   \<and> runHandler (handlers nothingRegistered) toStringJob
       = Inr (Some (JString ''[object Undefined]''))
   \<and> fst (process createFSAdapter toStringJob nothingRegistered) = Inr ()
   \<and> map (\<lambda>j. (status j, result j, attempts j, error j))
       (files (store (snd (process createFSAdapter toStringJob nothingRegistered))))
       = [(Done, Some (JString ''[object Undefined]''), 0, None)]
   \<and> map fst (emitted (snd (process createFSAdapter toStringJob nothingRegistered)))
       = [''start'', ''done'']
   \<and> timers (snd (process createFSAdapter toStringJob nothingRegistered)) = []"
proof -
  have r: "runHandler (handlers nothingRegistered) toStringJob
            = Inr (Some (JString ''[object Undefined]''))"
    by (simp add: runHandler_def lookupHandler_def inherited_def nothingRegistered_def
        createRunner_def toStringJob_def)
  have "process createFSAdapter toStringJob nothingRegistered =
          (Inr (),
            nothingRegistered\<lparr>store := (store nothingRegistered)\<lparr>files :=
                   writeFile (toStringJob\<lparr>status := Done,
                                result := Some (JString ''[object Undefined]''),
                                updatedAt := clock nothingRegistered\<rparr>)
                     (files (store nothingRegistered))\<rparr>,
                emitted := emitted nothingRegistered
                  @ [(''start'', toStringJob),
                     (''done'', toStringJob\<lparr>result := Some (JString ''[object Undefined]'')\<rparr>)],
                calls := calls nothingRegistered @ allCalled ''start'' toStringJob nothingRegistered
                  @ allCalled ''done''
                      (toStringJob\<lparr>result := Some (JString ''[object Undefined]'')\<rparr>)
                      nothingRegistered\<rparr>)"
    using r
    by (intro process_fs_done)
       (simp_all add: nothingRegistered_def createRunner_def healthy_def quiet_def)
  then show ?thesis
    using r by (simp add: nothingRegistered_def createRunner_def toStringJob_def)
qed

subsection \<open>What the notifications carry\<close>

text \<open>
  Claim C10: the job object delivered with the done and failed notifications is the
  in-memory object the attempt was dispatched with, not the persisted final record.
  Stated over the filesystem adapter, for a healthy disk, listeners that return, a
  dispatched object \<open>job\<close> and the record \<open>j0\<close> stored under its id: when the handler
  resolves with \<open>r\<close>, the notifications are start with \<open>job\<close> and done with \<open>job\<close>
  plus the result \<open>r\<close>, so with the status and attempts of \<open>job\<close>, while the stored
  record has become done; when the handler fails and the attempts of \<open>job\<close> are not
  below its maxAttempts, the notifications are start and failed, both with \<open>job\<close>
  itself, so with its attempts and with no error when \<open>job\<close> has none, while the stored
  record has become failed, with the error message and one more attempt.
\<close>

theorem notifications_carry_dispatched_object:
  assumes "healthy (store st)" and "quiet st"
    and "find (\<lambda>j. jobId j = jobId job) (files (store st)) = Some j0"
  shows "(runHandler (handlers st) job = Inr r \<longrightarrow>
            emitted (snd (process createFSAdapter job st))
              = emitted st @ [(''start'', job), (''done'', job\<lparr>result := r\<rparr>)]
            \<and> status (job\<lparr>result := r\<rparr>) = status job
            \<and> attempts (job\<lparr>result := r\<rparr>) = attempts job
            \<and> find (\<lambda>j. jobId j = jobId job)
                  (files (store (snd (process createFSAdapter job st))))
                = Some (j0\<lparr>status := Done, result := r, updatedAt := clock st\<rparr>))
         \<and> (runHandler (handlers st) job = Inl err \<and> \<not> int (attempts job) < maxAttempts job \<longrightarrow>
            emitted (snd (process createFSAdapter job st))
              = emitted st @ [(''start'', job), (''failed'', job)]
            \<and> find (\<lambda>j. jobId j = jobId job)
                  (files (store (snd (process createFSAdapter job st))))
                = Some (j0\<lparr>attempts := attempts j0 + 1, status := Failed,
                            error := Some (message err), updatedAt := clock st\<rparr>))"
proof -
  have i: "jobId j0 = jobId job"
    using assms(3) by (rule find_jobId)
  show ?thesis
  proof (intro conjI impI)
    assume r: "runHandler (handlers st) job = Inr r"
    show "emitted (snd (process createFSAdapter job st))
              = emitted st @ [(''start'', job), (''done'', job\<lparr>result := r\<rparr>)]"
      by (simp add: process_fs_done [OF assms r])
    show "find (\<lambda>j. jobId j = jobId job)
                  (files (store (snd (process createFSAdapter job st))))
                = Some (j0\<lparr>status := Done, result := r, updatedAt := clock st\<rparr>)"
      using i by (simp add: process_fs_done [OF assms r] find_writeFile_same)
  next
    assume f: "runHandler (handlers st) job = Inl err \<and> \<not> int (attempts job) < maxAttempts job"
    then have p: "process createFSAdapter job st =
           (Inr (),
            st\<lparr>store := (store st)\<lparr>files :=
                   writeFile (j0\<lparr>attempts := attempts j0 + 1, status := Failed,
                                  error := Some (message err), updatedAt := clock st\<rparr>)
                     (files (store st))\<rparr>,
                emitted := emitted st @ [(''start'', job), (''failed'', job)],
                calls := calls st @ allCalled ''start'' job st @ allCalled ''failed'' job st\<rparr>)"
      by (intro process_fs_failed assms) simp_all
    show "emitted (snd (process createFSAdapter job st))
              = emitted st @ [(''start'', job), (''failed'', job)]"
      by (simp add: p)
    show "find (\<lambda>j. jobId j = jobId job)
                  (files (store (snd (process createFSAdapter job st))))
                = Some (j0\<lparr>attempts := attempts j0 + 1, status := Failed,
                            error := Some (message err), updatedAt := clock st\<rparr>)"
      using i by (simp add: p find_writeFile_same)
  qed simp_all
qed

theorem notifications_carry_dispatched_object_witness:
  "emitted (snd (process createFSAdapter job1 willSucceed))
     = [(''start'', job1), (''done'', job1\<lparr>result := Some (JBool True)\<rparr>)]
   \<and> status job1 = Pending \<and> attempts job1 = 0
   \<and> map (\<lambda>j. (status j, attempts j, result j))
       (files (store (snd (process createFSAdapter job1 willSucceed))))
       = [(Done, 0, Some (JBool True))]
   \<and> emitted (snd (process createFSAdapter runningJob lastAttempt))
       = [(''start'', runningJob), (''failed'', runningJob)]
   \<and> error runningJob = None \<and> attempts runningJob = 3 \<and> maxAttempts runningJob = 3
   \<and> map (\<lambda>j. (status j, attempts j, error j))
       (files (store (snd (process createFSAdapter runningJob lastAttempt))))
       = [(Failed, 4, Some ''boom'')]"
proof -
  have s: "healthy (store willSucceed)" "quiet willSucceed"
    "find (\<lambda>j. jobId j = jobId job1) (files (store willSucceed)) = Some job1"
    "runHandler (handlers willSucceed) job1 = Inr (Some (JBool True))"
    "emitted willSucceed = []" "files (store willSucceed) = [job1]" "clock willSucceed = 5"
    by (simp_all add: willSucceed_def createRunner_def healthy_def quiet_def runHandler_def
        lookupHandler_def succeeds_def job1_def)
  have f: "healthy (store lastAttempt)" "quiet lastAttempt"
    "find (\<lambda>j. jobId j = jobId runningJob) (files (store lastAttempt))
       = Some (runningJob\<lparr>status := Pending, updatedAt := 50\<rparr>)"
    "runHandler (handlers lastAttempt) runningJob = Inl (Error ''boom'')
       \<and> \<not> int (attempts runningJob) < maxAttempts runningJob"
    "emitted lastAttempt = []"
    "files (store lastAttempt) = [runningJob\<lparr>status := Pending, updatedAt := 50\<rparr>]"
    "clock lastAttempt = 60"
    by (simp_all add: lastAttempt_def createRunner_def healthy_def quiet_def runHandler_def
        lookupHandler_def alwaysFails_def runningJob_def)
  note a = notifications_carry_dispatched_object [OF s(1,2,3), of "Some (JBool True)" "Error ''x''"]
  note b = notifications_carry_dispatched_object [OF f(1,2,3), of None "Error ''boom''"]
  have 1: "emitted (snd (process createFSAdapter job1 willSucceed))
     = [(''start'', job1), (''done'', job1\<lparr>result := Some (JBool True)\<rparr>)]"
    using a s(4,5) by simp
  have 2: "find (\<lambda>j. jobId j = jobId job1)
             (files (store (snd (process createFSAdapter job1 willSucceed))))
           = Some (job1\<lparr>status := Done, result := Some (JBool True),
                        updatedAt := clock willSucceed\<rparr>)"
    using a s(4) by simp
  have 3: "emitted (snd (process createFSAdapter runningJob lastAttempt))
       = [(''start'', runningJob), (''failed'', runningJob)]"
    using b f(4,5) by simp
  have 4: "files (store (snd (process createFSAdapter job1 willSucceed)))
       = [job1\<lparr>status := Done, result := Some (JBool True), updatedAt := 5\<rparr>]"
    by (simp add: process_fs_done [OF s(1,2,3,4)] s(6,7))
  have 5: "files (store (snd (process createFSAdapter runningJob lastAttempt)))
       = [runningJob\<lparr>attempts := 4, status := Failed, error := Some ''boom'', updatedAt := 60\<rparr>]"
    using f(4)
    by (simp add: process_fs_failed [OF f(1,2,3), of "Error ''boom''"] f(6,7))
       (simp add: runningJob_def)
  show ?thesis
    unfolding 1 3 4 5 by (simp add: job1_def runningJob_def)
qed

subsection \<open>Listeners\<close>









subsection \<open>add\<close>







end
